theory Spec2Isabelle
  imports Main
begin

section \<open>Strings\<close>

text \<open>
  A JavaScript string is a sequence of UTF-16 code units. The model uses \<open>string\<close>
  (a list of 8-bit characters) and reads each character as the code unit of the same
  number, so it covers the strings whose code units are below 256. Among these the line
  terminators of ECMAScript are LF and CR, and the white space stripped by
  \<open>String.prototype.trim\<close> is TAB, LF, VT, FF, CR, SPACE and NBSP (0xA0).
\<close>

definition lineTerminator :: "char \<Rightarrow> bool" where
  "lineTerminator c = (c = CHR 0x0A \<or> c = CHR 0x0D)"

definition whiteSpace :: "char \<Rightarrow> bool" where
  "whiteSpace c =
     (c = CHR 0x09 \<or> c = CHR 0x0A \<or> c = CHR 0x0B \<or> c = CHR 0x0C \<or> c = CHR 0x0D
      \<or> c = CHR 0x20 \<or> c = CHR 0xA0)"

text \<open>\<open>s.trim()\<close>: white space removed at both ends.\<close>

definition trim :: "string \<Rightarrow> string" where
  "trim s = rev (dropWhile whiteSpace (rev (dropWhile whiteSpace s)))"

text \<open>\<open>s.startsWith(t)\<close> and \<open>s.endsWith(t)\<close>.\<close>

definition startsWith :: "string \<Rightarrow> string \<Rightarrow> bool" where
  "startsWith s t = (take (length t) s = t)"

definition endsWith :: "string \<Rightarrow> string \<Rightarrow> bool" where
  "endsWith s t = (length t \<le> length s \<and> drop (length s - length t) s = t)"

text \<open>
  \<open>s.toLowerCase()\<close> on code units below 256: the letters A-Z and the Latin-1 capitals
  0xC0-0xDE (the multiplication sign 0xD7 apart) move up by 32, every other code unit
  stays.
\<close>

definition lowerChar :: "char \<Rightarrow> char" where
  "lowerChar c =
     (let n = (of_char c :: nat)
      in if (65 \<le> n \<and> n \<le> 90) \<or> (192 \<le> n \<and> n \<le> 222 \<and> n \<noteq> 215)
         then char_of (n + 32) else c)"

definition toLowerCase :: "string \<Rightarrow> string" where
  "toLowerCase s = map lowerChar s"

text \<open>
  \<open>s.split(sep)\<close> with a string separator: the occurrences of \<open>sep\<close> are found from
  left to right, without overlap, and the pieces between them are returned (so a string
  without the separator, the empty string too, gives one piece). An empty separator
  cuts the string into its code units.
\<close>

function splitFrom :: "string \<Rightarrow> string \<Rightarrow> string \<Rightarrow> string list" where
  "splitFrom sep cur [] = [cur]"
| "splitFrom sep cur (c # cs) =
     (if sep \<noteq> [] \<and> startsWith (c # cs) sep
      then cur # splitFrom sep [] (drop (length sep) (c # cs))
      else splitFrom sep (cur @ [c]) cs)"
  by pat_completeness auto
termination
  by (relation "measure (\<lambda>(sep, cur, s). length s)") (auto simp: neq_Nil_conv)

definition split :: "string \<Rightarrow> string \<Rightarrow> string list" where
  "split s sep = (if sep = [] then map (\<lambda>c. [c]) s else splitFrom sep [] s)"

section \<open>Numbers\<close>

text \<open>
  A JavaScript number is an IEEE 754 double. The numbers of this program are rows and
  columns: the model has the integers and the two infinities (\<open>Finite n\<close> stands for a
  double when \<open>n\<close> is one; the numbers the parser computes are, and the range of the
  caller is carried as it is). NaN and fractions do not arise from decimal digits.
\<close>

datatype number = Finite int | PosInfinity | NegInfinity

text \<open>The number of binary digits of a positive integer.\<close>

function bitLength :: "int \<Rightarrow> nat" where
  "bitLength n = (if n \<le> 0 then 0 else Suc (bitLength (n div 2)))"
  by pat_completeness auto
termination
  by (relation "measure nat") auto

declare bitLength.simps [simp del]

text \<open>
  The double nearest to an integer \<open>n\<close> that is not negative, ties to the even
  significand: below \<open>2 ^ 53\<close> every integer is a double; above, the 53 leading binary
  digits \<open>q\<close> are kept and the \<open>e\<close> digits \<open>r\<close> that follow decide the rounding. A
  result of \<open>2 ^ 1024\<close> or more is beyond the largest double and becomes Infinity.
\<close>

definition roundToDouble :: "int \<Rightarrow> int" where
  "roundToDouble n =
     (if n < 2 ^ 53 then n
      else
        let e = bitLength n - 53;
            q = n div 2 ^ e;
            r = n mod 2 ^ e;
            half = 2 ^ (e - 1)
        in (if half < r \<or> (r = half \<and> odd q) then q + 1 else q) * 2 ^ e)"

definition toNumber :: "int \<Rightarrow> number" where
  "toNumber n =
     (let m = roundToDouble n in if m < 2 ^ 1024 then Finite m else PosInfinity)"

text \<open>The same for an integer of either sign.\<close>

definition roundInt :: "int \<Rightarrow> number" where
  "roundInt i =
     (if 0 \<le> i then toNumber i
      else case toNumber (- i) of
             Finite m \<Rightarrow> Finite (- m)
           | PosInfinity \<Rightarrow> NegInfinity
           | NegInfinity \<Rightarrow> PosInfinity)"

text \<open>
  \<open>parseInt(ds, 10)\<close> on a string of decimal digits (the only strings the program
  passes): the double nearest to the integer that the digits write, as the language
  defines it and as V8 computes it.
\<close>

definition digit :: "char \<Rightarrow> bool" where
  "digit c = (c \<in> set ''0123456789'')"

definition decimalValue :: "string \<Rightarrow> int" where
  "decimalValue ds = foldl (\<lambda>a c. 10 * a + (int (of_char c) - 48)) 0 ds"

definition parseInt :: "string \<Rightarrow> number" where
  "parseInt ds = toNumber (decimalValue ds)"

text \<open>\<open>x > 0\<close> and \<open>x - 1\<close> on numbers; the difference is rounded as every result is.\<close>

definition greaterZero :: "number \<Rightarrow> bool" where
  "greaterZero x = (case x of Finite n \<Rightarrow> 0 < n | PosInfinity \<Rightarrow> True | NegInfinity \<Rightarrow> False)"

definition minusOne :: "number \<Rightarrow> number" where
  "minusOne x =
     (case x of Finite n \<Rightarrow> roundInt (n - 1)
      | PosInfinity \<Rightarrow> PosInfinity
      | NegInfinity \<Rightarrow> NegInfinity)"

section \<open>The regular expressions\<close>

text \<open>
  The five filename patterns all have the form \<open>^(.*SEP)(c1|...|cn)TAIL$\<close>, where
  \<open>SEP\<close> is one character of a given set and \<open>TAIL\<close> is a literal. A dot of a pattern
  matches every code unit but a line terminator, \<open>^\<close> and \<open>$\<close> are the two ends of the
  input (no flag is set). Group 1 is what stands before the code, the separator included,
  group 2 is the code. In each pattern the codes have one length, so the input can be cut
  in one way only, and the order in which the matcher tries the alternatives and the
  lengths of \<open>.*\<close> does not show: \<open>extRegex\<close> tries the codes from left to right.
\<close>

definition extMatch :: "string \<Rightarrow> string \<Rightarrow> string \<Rightarrow> string \<Rightarrow> bool" where
  "extMatch seps tail s c =
     (let n = length s - length (c @ tail); base = take n s
      in length (c @ tail) \<le> length s \<and> drop n s = c @ tail
         \<and> base \<noteq> [] \<and> last base \<in> set seps
         \<and> (\<forall>x \<in> set (butlast base). \<not> lineTerminator x))"

definition extRegex :: "string \<Rightarrow> string list \<Rightarrow> string \<Rightarrow> string \<Rightarrow> (string \<times> string) option" where
  "extRegex seps codes tail s =
     (case List.find (extMatch seps tail s) codes of
        None \<Rightarrow> None
      | Some c \<Rightarrow> Some (take (length s - length (c @ tail)) s, c))"

text \<open>\<open>/^(.*(?:\.|_))(v|g|f)(\.glsl)$/\<close>\<close>

definition char1glslRegex :: "string \<Rightarrow> (string \<times> string) option" where
  "char1glslRegex = extRegex ''._'' [''v'', ''g'', ''f''] ''.glsl''"

text \<open>\<open>/^(.*(?:\.|_))(vs|tc|te|gs|fs|cs)(\.glsl)$/\<close>\<close>

definition char2glslRegex :: "string \<Rightarrow> (string \<times> string) option" where
  "char2glslRegex = extRegex ''._'' [''vs'', ''tc'', ''te'', ''gs'', ''fs'', ''cs''] ''.glsl''"

text \<open>\<open>/^(.*\.)(v|g|f)sh$/\<close>\<close>

definition char1shRegex :: "string \<Rightarrow> (string \<times> string) option" where
  "char1shRegex = extRegex ''.'' [''v'', ''g'', ''f''] ''sh''"

text \<open>\<open>/^(.*\.)(vs|tc|te|gs|fs|cs)$/\<close>\<close>

definition char2Regex :: "string \<Rightarrow> (string \<times> string) option" where
  "char2Regex = extRegex ''.'' [''vs'', ''tc'', ''te'', ''gs'', ''fs'', ''cs''] ''''"

text \<open>\<open>/^(.*\.)(vert|frag|geom|tesc|tese|comp)$/\<close>\<close>

definition defaultRegex :: "string \<Rightarrow> (string \<times> string) option" where
  "defaultRegex =
     extRegex ''.'' [''vert'', ''frag'', ''geom'', ''tesc'', ''tese'', ''comp''] ''''"

text \<open>
  The class \<open>[\w \-]\<close>: a letter, a digit, an underscore, a space or a hyphen.
\<close>

definition severityChar :: "char \<Rightarrow> bool" where
  "severityChar c =
     (c \<in> set ''abcdefghijklmnopqrstuvwxyzABCDEFGHIJKLMNOPQRSTUVWXYZ0123456789_ -'')"

text \<open>\<open>stripPrefix p s\<close>: the rest of \<open>s\<close> after the literal \<open>p\<close>.\<close>

definition stripPrefix :: "string \<Rightarrow> string \<Rightarrow> string option" where
  "stripPrefix p s = (if startsWith s p then Some (drop (length p) s) else None)"

text \<open>
  \<open>^([\w \-]+): (\d+):(\d+): (.*)$\<close>, the four groups of a match. The pattern is read
  from left to right without search: a colon follows group 1 and the two numbers, and a
  colon is in neither class, so each of the three runs is the longest one (the matcher
  finds nothing by giving characters back); the last group is the rest of the input and
  holds no line terminator.
\<close>

definition compileRegex :: "string \<Rightarrow> (string \<times> string \<times> string \<times> string) option" where
  "compileRegex line =
     (let g1 = takeWhile severityChar line in
      if g1 = [] then None else
      case stripPrefix '': '' (dropWhile severityChar line) of
        None \<Rightarrow> None
      | Some r2 \<Rightarrow>
         (let g2 = takeWhile digit r2 in
          if g2 = [] then None else
          case stripPrefix '':'' (dropWhile digit r2) of
            None \<Rightarrow> None
          | Some r4 \<Rightarrow>
             (let g3 = takeWhile digit r4 in
              if g3 = [] then None else
              case stripPrefix '': '' (dropWhile digit r4) of
                None \<Rightarrow> None
              | Some g4 \<Rightarrow>
                  if \<forall>x \<in> set g4. \<not> lineTerminator x
                  then Some (g1, g2, g3, g4) else None)))"

text \<open>
  \<open>^([\w \-]+): Linking {{typeName}} stage: (.*)$\<close> with the shader type's name put in
  the place of \<open>{{typeName}}\<close>. The name is read as literal text, which is what the
  pattern does for the names of \<open>shaderTypes\<close>: they are made of letters and spaces.
\<close>

definition linkRegex :: "string \<Rightarrow> string \<Rightarrow> (string \<times> string) option" where
  "linkRegex typeName line =
     (let g1 = takeWhile severityChar line in
      if g1 = [] then None else
      case stripPrefix ('': Linking '' @ typeName @ '' stage: '') (dropWhile severityChar line) of
        None \<Rightarrow> None
      | Some g2 \<Rightarrow>
          if \<forall>x \<in> set g2. \<not> lineTerminator x then Some (g1, g2) else None)"

section \<open>The data model\<close>

record ShaderType =
  char1 :: "string option"
  char2 :: string
  char4 :: string
  name :: string

record Shader =
  shader_type :: ShaderType
  shader_name :: string
  shader_fullFilename :: "string option"
  shader_contents :: string
  shader_outFilename :: "string option"

record ShaderTokens =
  baseFilename :: string
  baseShaderType :: ShaderType
  dirName :: string
  outFilename :: string
  fullFilename :: string

text \<open>A \<open>Range\<close> is a pair of (row, column) pairs of numbers.\<close>

type_synonym Range = "(number \<times> number) \<times> (number \<times> number)"

record Location =
  "file" :: "string option"
  position :: Range

record LintResult =
  severity :: string
  excerpt :: string
  location :: Location

definition VALID_SEVERITY :: "string list" where
  "VALID_SEVERITY = [''error'', ''warning'', ''info'']"

definition shaderTypes :: "ShaderType list" where
  "shaderTypes =
     [\<lparr>char1 = Some ''v'', char2 = ''vs'', char4 = ''vert'', name = ''vertex''\<rparr>,
      \<lparr>char1 = Some ''f'', char2 = ''fs'', char4 = ''frag'', name = ''fragment''\<rparr>,
      \<lparr>char1 = Some ''g'', char2 = ''gs'', char4 = ''geom'', name = ''geometry''\<rparr>,
      \<lparr>char1 = None, char2 = ''te'', char4 = ''tese'', name = ''tessellation evaluation''\<rparr>,
      \<lparr>char1 = None, char2 = ''tc'', char4 = ''tesc'', name = ''tessellation control''\<rparr>,
      \<lparr>char1 = None, char2 = ''cs'', char4 = ''comp'', name = ''compute''\<rparr>]"

section \<open>Severity and stage lookup\<close>

definition getSeverity :: "string \<Rightarrow> string" where
  "getSeverity givenSeverity =
     (let severity = toLowerCase givenSeverity
      in if severity \<in> set VALID_SEVERITY then severity else ''warning'')"

text \<open>
  \<open>shaderTypeLookup\<close> filters the table on one field and takes the first hit;
  \<open>None\<close> is the \<open>undefined\<close> of an empty result. The field is given as its reader
  (an absent \<open>char1\<close> is equal to no string).
\<close>

definition shaderTypeLookup :: "(ShaderType \<Rightarrow> string option) \<Rightarrow> string \<Rightarrow> ShaderType option" where
  "shaderTypeLookup field fieldValue =
     (case filter (\<lambda>shaderType. field shaderType = Some fieldValue) shaderTypes of
        [] \<Rightarrow> None
      | t # _ \<Rightarrow> Some t)"

definition shaderByChar1 :: "string \<Rightarrow> ShaderType option" where
  "shaderByChar1 c = shaderTypeLookup char1 c"

definition shaderByChar2 :: "string \<Rightarrow> ShaderType option" where
  "shaderByChar2 c = shaderTypeLookup (\<lambda>t. Some (char2 t)) c"

definition shaderByChar4 :: "string \<Rightarrow> ShaderType option" where
  "shaderByChar4 c = shaderTypeLookup (\<lambda>t. Some (char4 t)) c"

section \<open>Parsing the validator's output\<close>

text \<open>
  The two objects that the loop pushes: the one built from a match of the compile
  pattern (group 3 is the row, group 2 the column), and the one built from a match of
  the link pattern.
\<close>

definition compileResult :: "Shader \<Rightarrow> string \<times> string \<times> string \<times> string \<Rightarrow> LintResult" where
  "compileResult shader m =
     (case m of (m1, m2, m3, m4) \<Rightarrow>
        let lineStart = parseInt m3;
            colStart = parseInt m2;
            lineEnd = lineStart;
            colEnd = colStart
        in \<lparr>severity = getSeverity m1,
            excerpt = trim m4,
            location =
              \<lparr>file = shader_fullFilename shader,
               position =
                 ((if greaterZero lineStart then minusOne lineStart else Finite 0,
                   if greaterZero colStart then minusOne colStart else Finite 0),
                  (if greaterZero lineEnd then minusOne lineEnd else Finite 0,
                   if greaterZero colEnd then minusOne colEnd else Finite 0))\<rparr>\<rparr>)"

definition linkResult :: "Shader \<Rightarrow> Range \<Rightarrow> string \<times> string \<Rightarrow> LintResult" where
  "linkResult shader firstRowRange linkMatch =
     (case linkMatch of (l1, l2) \<Rightarrow>
        \<lparr>severity = getSeverity l1,
         excerpt = trim l2,
         location = \<lparr>file = shader_fullFilename shader, position = firstRowRange\<rparr>\<rparr>)"

text \<open>
  The body of the loop over the lines, in its two parts. The first part (the
  \<open>if\<close>/\<open>else if\<close> on the section header and the compile pattern) reads and writes the
  flag \<open>compileStarted\<close> and may push one result; the second part (the link pattern)
  may push one more. \<open>n\<close> is \<open>inputs.length\<close>.
\<close>

definition compileStep :: "nat \<Rightarrow> Shader \<Rightarrow> bool \<times> LintResult list \<Rightarrow> string \<Rightarrow> bool \<times> LintResult list" where
  "compileStep n shader st line =
     (case st of (compileStarted, toReturn) \<Rightarrow>
        if endsWith line (shader_name shader) then (True, toReturn)
        else if compileStarted \<or> n = 1 then
          (case compileRegex line of
             Some m \<Rightarrow> (compileStarted, toReturn @ [compileResult shader m])
           | None \<Rightarrow> (False, toReturn))
        else (compileStarted, toReturn))"

definition linkStep :: "Shader \<Rightarrow> Range \<Rightarrow> LintResult list \<Rightarrow> string \<Rightarrow> LintResult list" where
  "linkStep shader firstRowRange toReturn line =
     (let typeName = name (shader_type shader) in
      case linkRegex typeName line of
        Some linkMatch \<Rightarrow> toReturn @ [linkResult shader firstRowRange linkMatch]
      | None \<Rightarrow> toReturn)"

definition lineBody :: "nat \<Rightarrow> Shader \<Rightarrow> Range \<Rightarrow> bool \<times> LintResult list \<Rightarrow> string \<Rightarrow> bool \<times> LintResult list" where
  "lineBody n shader firstRowRange st line =
     (case compileStep n shader st line of (compileStarted, toReturn) \<Rightarrow>
        (compileStarted, linkStep shader firstRowRange toReturn line))"

text \<open>
  The loop over the lines for one shader: \<open>compileStarted\<close> starts as false, the lines
  are walked in order, \<open>toReturn\<close> is carried on.
\<close>

definition linesLoop :: "nat \<Rightarrow> Shader \<Rightarrow> Range \<Rightarrow> LintResult list \<Rightarrow> string list \<Rightarrow> LintResult list" where
  "linesLoop n shader firstRowRange toReturn ls =
     snd (foldl (lineBody n shader firstRowRange) (False, toReturn) ls)"

text \<open>
  The body of the loop over the shaders. \<open>eol\<close> is \<open>os.EOL\<close>, the line end of the
  platform (LF, or CR LF on Windows).
\<close>

definition shaderBody :: "string \<Rightarrow> Shader list \<Rightarrow> string \<Rightarrow> Range \<Rightarrow> LintResult list \<Rightarrow> Shader \<Rightarrow> LintResult list" where
  "shaderBody eol inputs output firstRowRange toReturn shader =
     linesLoop (length inputs) shader firstRowRange toReturn (split output eol)"

text \<open>The promise resolves with \<open>toReturn\<close>; the model returns that list.\<close>

definition parseGlslValidatorResponse :: "string \<Rightarrow> Shader list \<Rightarrow> string \<Rightarrow> Range \<Rightarrow> LintResult list" where
  "parseGlslValidatorResponse eol inputs output firstRowRange =
     foldl (shaderBody eol inputs output firstRowRange) [] inputs"

section \<open>Classifying a file name\<close>

text \<open>
  \<open>path.basename\<close> and \<open>path.dirname\<close> of Node.js, in their POSIX form. The base
  name: slashes at the end are passed over, and the name is what stands after the last
  slash that is left. The directory name: from the right and down to the second
  character, slashes at the end and then the name are passed over; the path is cut
  before the slash met next.
\<close>

definition path_basename :: "string \<Rightarrow> string" where
  "path_basename p =
     rev (takeWhile (\<lambda>c. c \<noteq> CHR ''/'') (dropWhile (\<lambda>c. c = CHR ''/'') (rev p)))"

definition path_dirname :: "string \<Rightarrow> string" where
  "path_dirname p =
     (if p = [] then ''.''
      else
        let hasRoot = (hd p = CHR ''/'');
            r = dropWhile (\<lambda>c. c \<noteq> CHR ''/'')
                  (dropWhile (\<lambda>c. c = CHR ''/'') (rev (tl p)))
        in if r = [] then (if hasRoot then ''/'' else ''.'')
           else if hasRoot \<and> tl r = [] then ''//''
           else hd p # rev (tl r))"

datatype error = UnknownShaderType | TypeErrorUndefined

text \<open>
  The chain of tests on the five patterns, in its order: the values it gives to
  \<open>baseFilename\<close> and \<open>baseShaderType\<close> (\<open>None\<close> for the \<open>undefined\<close> of a lookup
  without result), or \<open>None\<close> where it throws \<open>Unknown shader type\<close>.
\<close>

definition matchFileName :: "string \<Rightarrow> (string \<times> ShaderType option) option" where
  "matchFileName fileName =
     (case char1glslRegex fileName of
        Some (m1, m2) \<Rightarrow> Some (m1, shaderByChar1 m2)
      | None \<Rightarrow>
     (case char2glslRegex fileName of
        Some (m1, m2) \<Rightarrow> Some (m1, shaderByChar2 m2)
      | None \<Rightarrow>
     (case char1shRegex fileName of
        Some (m1, m2) \<Rightarrow> Some (m1, shaderByChar1 m2)
      | None \<Rightarrow>
     (case char2Regex fileName of
        Some (m1, m2) \<Rightarrow> Some (m1, shaderByChar2 m2)
      | None \<Rightarrow>
     (case defaultRegex fileName of
        Some (m1, m2) \<Rightarrow> Some (m1, shaderByChar4 m2)
      | None \<Rightarrow> None)))))"

text \<open>
  Reading \<open>char4\<close> of an \<open>undefined\<close> lookup result would be a TypeError. \<open>out0\<close>,
  \<open>out1\<close>, \<open>out2\<close> are the three values of the variable \<open>outFilename\<close>.
\<close>

definition extractShaderFilenameTokens :: "string \<Rightarrow> error + ShaderTokens" where
  "extractShaderFilenameTokens shaderFilename =
     (let fileName = path_basename shaderFilename;
          dir = path_dirname shaderFilename
      in case matchFileName fileName of
           None \<Rightarrow> Inl UnknownShaderType
         | Some (base, None) \<Rightarrow> Inl TypeErrorUndefined
         | Some (base, Some shaderType) \<Rightarrow>
             (let out0 = base;
                  out1 = (if \<not> endsWith out0 ''.'' then out0 @ ''.'' else out0);
                  out2 = out1 @ char4 shaderType
              in Inr \<lparr>baseFilename = base,
                      baseShaderType = shaderType,
                      dirName = dir,
                      outFilename = out2,
                      fullFilename = shaderFilename\<rparr>))"

section \<open>Notions used in the statements\<close>

text \<open>
  The value of \<open>compileStarted\<close> after the loop for one shader has walked the lines
  \<open>ls\<close>.
\<close>

definition sectionState :: "nat \<Rightarrow> Shader \<Rightarrow> Range \<Rightarrow> string list \<Rightarrow> bool" where
  "sectionState n sh r ls = fst (foldl (lineBody n sh r) (False, []) ls)"

text \<open>
  A shader record as \<open>lint\<close> builds it from the tokens of a classified file: its type
  is one of \<open>shaderTypes\<close> and its name is the \<open>outFilename\<close>, which ends with a dot and
  the \<open>char4\<close> of the type.
\<close>

definition canonicalShader :: "Shader \<Rightarrow> bool" where
  "canonicalShader sh =
     (shader_type sh \<in> set shaderTypes
      \<and> endsWith (shader_name sh) (''.'' @ char4 (shader_type sh)))"

text \<open>The output line \<open>ERROR: 3:5: undefined variable 'x'\<close>.\<close>

definition exampleLine :: string where
  "exampleLine = ''ERROR: 3:5: undefined variable '' @ [CHR 0x27] @ ''x'' @ [CHR 0x27]"

text \<open>Its message, \<open>undefined variable 'x'\<close>.\<close>

definition exampleMessage :: string where
  "exampleMessage = ''undefined variable '' @ [CHR 0x27] @ ''x'' @ [CHR 0x27]"

text \<open>
  Two shader records for the examples, as \<open>lint\<close> would build them for the files
  \<open>/work/foo.fs.glsl\<close> and \<open>/work/foo.vs.glsl\<close>.
\<close>

definition fragmentShader :: Shader where
  "fragmentShader =
     \<lparr>shader_type = \<lparr>char1 = Some ''f'', char2 = ''fs'', char4 = ''frag'', name = ''fragment''\<rparr>,
      shader_name = ''foo.frag'',
      shader_fullFilename = Some ''/work/foo.fs.glsl'',
      shader_contents = ''void main() {}'',
      shader_outFilename = None\<rparr>"

definition vertexShader :: Shader where
  "vertexShader =
     \<lparr>shader_type = \<lparr>char1 = Some ''v'', char2 = ''vs'', char4 = ''vert'', name = ''vertex''\<rparr>,
      shader_name = ''foo.vert'',
      shader_fullFilename = Some ''/work/foo.vs.glsl'',
      shader_contents = ''void main() {}'',
      shader_outFilename = None\<rparr>"

text \<open>
  The naming conventions as the five patterns have them: the name is a base, one
  separator of \<open>seps\<close>, one code of \<open>codes\<close> and the literal \<open>tail\<close>, and the base
  holds no line terminator.
\<close>

definition matchesConvention :: "string \<Rightarrow> string list \<Rightarrow> string \<Rightarrow> string \<Rightarrow> bool" where
  "matchesConvention seps codes tail s =
     (\<exists>c \<in> set codes. \<exists>sep \<in> set seps.
        endsWith s (sep # c @ tail)
        \<and> (\<forall>x \<in> set (take (length s - length (sep # c @ tail)) s). \<not> lineTerminator x))"

definition codeConventions :: "string \<Rightarrow> bool" where
  "codeConventions s =
     (matchesConvention ''._'' [''v'', ''g'', ''f''] ''.glsl'' s
      \<or> matchesConvention ''._'' [''vs'', ''tc'', ''te'', ''gs'', ''fs'', ''cs''] ''.glsl'' s
      \<or> matchesConvention ''.'' [''v'', ''g'', ''f''] ''sh'' s
      \<or> matchesConvention ''.'' [''vs'', ''tc'', ''te'', ''gs'', ''fs'', ''cs''] '''' s
      \<or> matchesConvention ''.'' [''vert'', ''frag'', ''geom'', ''tesc'', ''tese'', ''comp''] '''' s)"

text \<open>
  The five naming conventions in the words of the specification:
  \<open><base>.<v|g|f>.glsl\<close>, \<open><base>.<vs|tc|te|gs|fs|cs>.glsl\<close>, \<open><base>.<v|g|f>sh\<close>,
  \<open><base>.<vs|tc|te|gs|fs|cs>\<close> and \<open><base>.<vert|frag|geom|tesc|tese|comp>\<close>, with any
  text as the base.
\<close>

definition specConventions :: "string \<Rightarrow> bool" where
  "specConventions s =
     ((\<exists>c \<in> set [''v'', ''g'', ''f'']. endsWith s (''.'' @ c @ ''.glsl''))
      \<or> (\<exists>c \<in> set [''vs'', ''tc'', ''te'', ''gs'', ''fs'', ''cs'']. endsWith s (''.'' @ c @ ''.glsl''))
      \<or> (\<exists>c \<in> set [''v'', ''g'', ''f'']. endsWith s (''.'' @ c @ ''sh''))
      \<or> (\<exists>c \<in> set [''vs'', ''tc'', ''te'', ''gs'', ''fs'', ''cs'']. endsWith s (''.'' @ c))
      \<or> (\<exists>c \<in> set [''vert'', ''frag'', ''geom'', ''tesc'', ''tese'', ''comp'']. endsWith s (''.'' @ c)))"

text \<open>The range of the first row, as a caller might pass it.\<close>

definition exampleRange :: Range where
  "exampleRange = ((Finite 0, Finite 0), (Finite 0, Finite 12))"

text \<open>Two more output lines for the examples.\<close>

definition noticeLine :: string where
  "noticeLine = ''NOTICE: 1:1: foo''"

definition linkLine :: string where
  "linkLine = ''ERROR: Linking fragment stage: too many varyings''"

text \<open>
  Two outputs, as lists of lines: a section header followed by a compile line, and a
  compile line that itself ends with the name of the shader, followed by a compile line.
\<close>

definition sectionLines :: "string list" where
  "sectionLines = [''foo.frag'', ''ERROR: 0:7: a'']"

definition headerLines :: "string list" where
  "headerLines = [''ERROR: 1:1: foo.frag'', ''ERROR: 0:7: a'']"

text \<open>A number that is not negative.\<close>

definition nonNegative :: "number \<Rightarrow> bool" where
  "nonNegative x = (case x of Finite n \<Rightarrow> 0 \<le> n | PosInfinity \<Rightarrow> True | NegInfinity \<Rightarrow> False)"

text \<open>
  The case-insensitive match of the specification, against a word \<open>t\<close> written in
  small letters: \<open>w\<close> has the letters of \<open>t\<close>, each one small or capital.
\<close>

definition capitalOf :: "char \<Rightarrow> char" where
  "capitalOf c =
     (case map_of (zip ''abcdefghijklmnopqrstuvwxyz'' ''ABCDEFGHIJKLMNOPQRSTUVWXYZ'') c of
        Some C \<Rightarrow> C
      | None \<Rightarrow> c)"

definition caseInsensitiveMatch :: "string \<Rightarrow> string \<Rightarrow> bool" where
  "caseInsensitiveMatch w t = list_all2 (\<lambda>a b. a = b \<or> a = capitalOf b) w t"

text \<open>An output line with a recognised severity word in capitals, and a range with
  negative numbers.\<close>

definition infoLine :: string where
  "infoLine = ''INFO: 1:1: foo''"

definition negativeRange :: Range where
  "negativeRange = ((Finite (- 1), Finite (- 1)), (Finite (- 1), Finite (- 1)))"

text \<open>A compile line whose reported row is \<open>2 ^ 53 + 1\<close>.\<close>

definition bigRowLine :: string where
  "bigRowLine = ''ERROR: 3:9007199254740993: a''"

text \<open>The digit 2 followed by 308 zeros: a number above the largest double.\<close>

definition hugeDigits :: string where
  "hugeDigits = CHR ''2'' # replicate 308 (CHR ''0'')"

section \<open>Auxiliary facts\<close>

lemma endsWith_iff: "endsWith s t \<longleftrightarrow> (\<exists>a. s = a @ t)"
proof
  assume "endsWith s t"
  then have "s = take (length s - length t) s @ t"
    unfolding endsWith_def by (metis append_take_drop_id)
  then show "\<exists>a. s = a @ t" ..
next
  assume "\<exists>a. s = a @ t"
  then show "endsWith s t" by (auto simp: endsWith_def)
qed

lemma startsWith_iff: "startsWith s t \<longleftrightarrow> (\<exists>b. s = t @ b)"
proof
  assume "startsWith s t"
  then have "s = t @ drop (length t) s"
    unfolding startsWith_def by (metis append_take_drop_id)
  then show "\<exists>b. s = t @ b" ..
next
  assume "\<exists>b. s = t @ b"
  then show "startsWith s t" by (auto simp: startsWith_def)
qed

lemma stripPrefix_Some: "stripPrefix p s = Some r \<longleftrightarrow> s = p @ r"
  by (auto simp: stripPrefix_def startsWith_iff)

lemma compileStep_acc:
  "compileStep n sh (st, acc) l =
     (fst (compileStep n sh (st, []) l), acc @ snd (compileStep n sh (st, []) l))"
  by (simp add: compileStep_def split: option.split)

lemma linkStep_acc: "linkStep sh r acc l = acc @ linkStep sh r [] l"
  by (simp add: linkStep_def split: option.split)

lemma lineBody_acc:
  "lineBody n sh r (st, acc) l =
     (fst (lineBody n sh r (st, []) l), acc @ snd (lineBody n sh r (st, []) l))"
proof -
  obtain a b where ab: "compileStep n sh (st, []) l = (a, b)" by (cases "compileStep n sh (st, []) l")
  have "compileStep n sh (st, acc) l = (a, acc @ b)"
    using compileStep_acc [of n sh st acc l] ab by simp
  then show ?thesis
    using ab linkStep_acc [of sh r "acc @ b" l] linkStep_acc [of sh r b l]
    by (simp add: lineBody_def)
qed

lemma foldl_lineBody_acc:
  "foldl (lineBody n sh r) (st, acc) ls =
     (fst (foldl (lineBody n sh r) (st, []) ls), acc @ snd (foldl (lineBody n sh r) (st, []) ls))"
proof (induction ls arbitrary: st acc)
  case Nil
  show ?case by simp
next
  case (Cons l ls)
  obtain a b where ab: "lineBody n sh r (st, []) l = (a, b)" by (cases "lineBody n sh r (st, []) l")
  have 1: "lineBody n sh r (st, acc) l = (a, acc @ b)"
    using lineBody_acc [of n sh r st acc l] ab by simp
  show ?case
    using Cons.IH [of a "acc @ b"] Cons.IH [of a b] ab 1 by simp
qed

lemma linesLoop_acc: "linesLoop n sh r acc ls = acc @ linesLoop n sh r [] ls"
  using foldl_lineBody_acc [of n sh r False acc ls] by (simp add: linesLoop_def)

lemma parse_foldl_acc:
  "foldl (shaderBody eol inputs output r) acc shs =
     acc @ concat (map (shaderBody eol inputs output r []) shs)"
proof (induction shs arbitrary: acc)
  case Nil
  show ?case by simp
next
  case (Cons sh shs)
  have "shaderBody eol inputs output r acc sh = acc @ shaderBody eol inputs output r [] sh"
    unfolding shaderBody_def by (rule linesLoop_acc)
  then show ?case using Cons.IH by simp
qed

lemma parse_concat:
  "parseGlslValidatorResponse eol inputs output r =
     concat (map (\<lambda>sh. linesLoop (length inputs) sh r [] (split output eol)) inputs)"
proof -
  have "shaderBody eol inputs output r [] =
          (\<lambda>sh. linesLoop (length inputs) sh r [] (split output eol))"
    by (rule ext) (simp add: shaderBody_def)
  then show ?thesis
    using parse_foldl_acc [of eol inputs "output" r "[]" inputs]
    by (simp add: parseGlslValidatorResponse_def)
qed

lemma fst_lineBody:
  "fst (lineBody n sh r (st, acc) l) =
     (endsWith l (shader_name sh) \<or> (st \<and> compileRegex l \<noteq> None))"
  by (auto simp: lineBody_def compileStep_def split: prod.split option.split)

lemma snd_lineBody:
  "snd (lineBody n sh r (st, []) l) =
     (if \<not> endsWith l (shader_name sh) \<and> (st \<or> n = 1)
      then (case compileRegex l of Some m \<Rightarrow> [compileResult sh m] | None \<Rightarrow> []) else [])
     @ (case linkRegex (name (shader_type sh)) l of
          Some m \<Rightarrow> [linkResult sh r m] | None \<Rightarrow> [])"
  by (auto simp: lineBody_def compileStep_def linkStep_def split: prod.split option.split)

lemma foldl_lineBody_snoc:
  "foldl (lineBody n sh r) (False, []) (ls @ [l]) =
     (endsWith l (shader_name sh) \<or> (sectionState n sh r ls \<and> compileRegex l \<noteq> None),
      linesLoop n sh r [] ls @ snd (lineBody n sh r (sectionState n sh r ls, []) l))"
proof -
  obtain a b where ab: "foldl (lineBody n sh r) (False, []) ls = (a, b)"
    by (cases "foldl (lineBody n sh r) (False, []) ls")
  show ?thesis
    using ab lineBody_acc [of n sh r a b l] fst_lineBody [of n sh r a "[]" l]
    by (simp add: sectionState_def linesLoop_def)
qed

lemma sectionState_snoc:
  "sectionState n sh r (ls @ [l]) =
     (endsWith l (shader_name sh) \<or> (sectionState n sh r ls \<and> compileRegex l \<noteq> None))"
  using foldl_lineBody_snoc [of n sh r ls l] by (simp add: sectionState_def)

lemma linesLoop_snoc:
  "linesLoop n sh r [] (ls @ [l]) =
     linesLoop n sh r [] ls @ snd (lineBody n sh r (sectionState n sh r ls, []) l)"
  using foldl_lineBody_snoc [of n sh r ls l] by (simp add: linesLoop_def)

lemma linesLoop_take_Suc:
  assumes "i < length ls"
  shows "linesLoop n sh r [] (take (Suc i) ls) =
     linesLoop n sh r [] (take i ls) @
     snd (lineBody n sh r (sectionState n sh r (take i ls), []) (ls ! i))"
  using assms linesLoop_snoc [of n sh r "take i ls" "ls ! i"]
  by (simp add: take_Suc_conv_app_nth)

lemma sectionState_Nil: "sectionState n sh r [] = False"
  by (simp add: sectionState_def)

lemma sectionState_header:
  "sectionState n sh r ls \<longleftrightarrow>
     (\<exists>pre h mid. ls = pre @ h # mid \<and> endsWith h (shader_name sh)
        \<and> (\<forall>l \<in> set mid. compileRegex l \<noteq> None))"
proof (induction ls rule: rev_induct)
  case Nil
  show ?case by (simp add: sectionState_Nil)
next
  case (snoc l ls)
  note IH = snoc.IH
  show ?case
  proof
    assume "sectionState n sh r (ls @ [l])"
    then consider "endsWith l (shader_name sh)"
      | "sectionState n sh r ls" "compileRegex l \<noteq> None"
      by (auto simp: sectionState_snoc)
    then show "\<exists>pre h mid. ls @ [l] = pre @ h # mid \<and> endsWith h (shader_name sh)
        \<and> (\<forall>l \<in> set mid. compileRegex l \<noteq> None)"
    proof cases
      case 1
      then have "ls @ [l] = ls @ l # [] \<and> endsWith l (shader_name sh)
        \<and> (\<forall>l \<in> set []. compileRegex l \<noteq> None)" by simp
      then show ?thesis by blast
    next
      case 2
      then obtain pre h mid where "ls = pre @ h # mid" "endsWith h (shader_name sh)"
        "\<forall>l \<in> set mid. compileRegex l \<noteq> None" using IH by blast
      then have "ls @ [l] = pre @ h # (mid @ [l]) \<and> endsWith h (shader_name sh)
        \<and> (\<forall>x \<in> set (mid @ [l]). compileRegex x \<noteq> None)" using 2 by simp
      then show ?thesis by blast
    qed
  next
    assume "\<exists>pre h mid. ls @ [l] = pre @ h # mid \<and> endsWith h (shader_name sh)
        \<and> (\<forall>l \<in> set mid. compileRegex l \<noteq> None)"
    then obtain pre h mid where d: "ls @ [l] = pre @ h # mid" "endsWith h (shader_name sh)"
        "\<forall>l \<in> set mid. compileRegex l \<noteq> None" by blast
    show "sectionState n sh r (ls @ [l])"
    proof (cases mid rule: rev_cases)
      case Nil
      then have "l = h" using d(1) by simp
      then show ?thesis using d(2) by (simp add: sectionState_snoc)
    next
      case (snoc mid' x)
      then have e: "ls = pre @ h # mid'" "l = x" using d(1) by simp_all
      have m: "\<forall>l \<in> set mid'. compileRegex l \<noteq> None" "compileRegex x \<noteq> None"
        using d(3) snoc by simp_all
      have "sectionState n sh r ls" using IH e(1) d(2) m(1) by blast
      then show ?thesis using e(2) m(2) by (simp add: sectionState_snoc)
    qed
  qed
qed


lemma ex_compile: "compileRegex exampleLine = Some (''ERROR'', ''3'', ''5'', ''undefined variable '' @ [CHR 0x27] @ ''x'' @ [CHR 0x27])"
  by (simp add: exampleLine_def compileRegex_def severityChar_def digit_def stripPrefix_def startsWith_def lineTerminator_def)

lemma ex_split: "split exampleLine [CHR 0x0A] = [exampleLine]" "split exampleLine [CHR 0x0D, CHR 0x0A] = [exampleLine]"
  by (simp_all add: exampleLine_def split_def startsWith_def)

lemma ex_sev: "getSeverity ''ERROR'' = ''error''"  "getSeverity ''NOTICE'' = ''warning''"
  by code_simp+

lemmas number_eval =
  parseInt_def decimalValue_def toNumber_def roundToDouble_def roundInt_def minusOne_def
  greaterZero_def bitLength.simps Let_def

lemma ex_parseInt:
  "parseInt ''5'' = Finite 5" "parseInt ''3'' = Finite 3" "parseInt ''1'' = Finite 1"
  "parseInt ''0'' = Finite 0" "parseInt ''7'' = Finite 7"
  by (simp_all add: number_eval)

lemma ex_trim: "trim (''undefined variable '' @ [CHR 0x27] @ ''x'' @ [CHR 0x27]) = ''undefined variable '' @ [CHR 0x27] @ ''x'' @ [CHR 0x27]"
  by (simp add: trim_def whiteSpace_def)

lemma compile_excludes_link:
  assumes "compileRegex l = Some m"
  shows "linkRegex tn l = None"
proof -
  from assms obtain r2 where 1: "dropWhile severityChar l = '': '' @ r2" and 2: "takeWhile digit r2 \<noteq> []"
    by (auto simp: compileRegex_def Let_def stripPrefix_Some split: if_splits option.splits)
  from 2 obtain d r3 where 3: "r2 = d # r3" "digit d" by (cases r2) (auto split: if_splits)
  have "\<not> digit (CHR ''L'')" by (simp add: digit_def)
  then have "stripPrefix ('': Linking '' @ tn @ '' stage: '') (dropWhile severityChar l) = None"
    using 1 3 by (auto simp: stripPrefix_def startsWith_iff)
  then show ?thesis by (simp add: linkRegex_def Let_def)
qed

lemma snd_lineBody_parts:
  "\<exists>A B. snd (lineBody n sh r (st, []) l) = A @ B
     \<and> (A = [] \<or> (\<exists>m. compileRegex l = Some m \<and> A = [compileResult sh m]))
     \<and> (B = [] \<or> (\<exists>m. linkRegex (name (shader_type sh)) l = Some m \<and> B = [linkResult sh r m]))"
proof (intro exI conjI)
  show "snd (lineBody n sh r (st, []) l) =
     (if \<not> endsWith l (shader_name sh) \<and> (st \<or> n = 1)
      then (case compileRegex l of Some m \<Rightarrow> [compileResult sh m] | None \<Rightarrow> []) else [])
     @ (case linkRegex (name (shader_type sh)) l of
          Some m \<Rightarrow> [linkResult sh r m] | None \<Rightarrow> [])" by (rule snd_lineBody)
  show "(if \<not> endsWith l (shader_name sh) \<and> (st \<or> n = 1)
      then (case compileRegex l of Some m \<Rightarrow> [compileResult sh m] | None \<Rightarrow> []) else []) = [] \<or> 
     (\<exists>m. compileRegex l = Some m \<and> (if \<not> endsWith l (shader_name sh) \<and> (st \<or> n = 1)
      then (case compileRegex l of Some m \<Rightarrow> [compileResult sh m] | None \<Rightarrow> []) else []) = [compileResult sh m])"
    by (cases "compileRegex l") simp_all
  show "(case linkRegex (name (shader_type sh)) l of
          Some m \<Rightarrow> [linkResult sh r m] | None \<Rightarrow> []) = [] \<or> (\<exists>m. linkRegex (name (shader_type sh)) l = Some m \<and> (case linkRegex (name (shader_type sh)) l of
          Some m \<Rightarrow> [linkResult sh r m] | None \<Rightarrow> []) = [linkResult sh r m])"
    by (cases "linkRegex (name (shader_type sh)) l") simp_all
qed


lemma step_provenance:
  assumes "d \<in> set (snd (lineBody n sh r (st, []) l))"
  shows "(\<exists>m. compileRegex l = Some m \<and> d = compileResult sh m)
           \<or> (\<exists>m. linkRegex (name (shader_type sh)) l = Some m \<and> d = linkResult sh r m)"
proof -
  from snd_lineBody_parts [of n sh r st l]
  obtain A B where ab: "snd (lineBody n sh r (st, []) l) = A @ B"
     "A = [] \<or> (\<exists>m. compileRegex l = Some m \<and> A = [compileResult sh m])"
     "B = [] \<or> (\<exists>m. linkRegex (name (shader_type sh)) l = Some m \<and> B = [linkResult sh r m])"
    by (elim exE conjE)
  from assms ab(1) have "d \<in> set A \<or> d \<in> set B" by simp
  then show ?thesis
  proof
    assume "d \<in> set A"
    then show ?thesis using ab(2) by auto
  next
    assume "d \<in> set B"
    then show ?thesis using ab(3) by auto
  qed
qed

lemma linesLoop_provenance:
  "d \<in> set (linesLoop n sh r [] ls) \<Longrightarrow>
   \<exists>l \<in> set ls.
           (\<exists>m. compileRegex l = Some m \<and> d = compileResult sh m)
           \<or> (\<exists>m. linkRegex (name (shader_type sh)) l = Some m \<and> d = linkResult sh r m)"
proof (induction ls rule: rev_induct)
  case Nil
  then show ?case by (simp add: linesLoop_def)
next
  case (snoc l ls)
  from snoc.prems consider "d \<in> set (linesLoop n sh r [] ls)"
    | "d \<in> set (snd (lineBody n sh r (sectionState n sh r ls, []) l))"
    by (auto simp: linesLoop_snoc)
  then show ?case
  proof cases
    case 1
    then show ?thesis using snoc.IH by auto
  next
    case 2
    then have "(\<exists>m. compileRegex l = Some m \<and> d = compileResult sh m)
           \<or> (\<exists>m. linkRegex (name (shader_type sh)) l = Some m \<and> d = linkResult sh r m)"
      by (rule step_provenance)
    then show ?thesis by auto
  qed
qed

lemma parse_provenance:
  assumes "d \<in> set (parseGlslValidatorResponse eol inputs output r)"
  shows "\<exists>sh \<in> set inputs. \<exists>l \<in> set (split output eol).
           (\<exists>m. compileRegex l = Some m \<and> d = compileResult sh m)
           \<or> (\<exists>m. linkRegex (name (shader_type sh)) l = Some m \<and> d = linkResult sh r m)"
proof -
  from assms obtain sh where "sh \<in> set inputs"
    "d \<in> set (linesLoop (length inputs) sh r [] (split output eol))"
    by (auto simp: parse_concat)
  then show ?thesis using linesLoop_provenance by blast
qed

lemma line_adds:
  assumes "i < length ls"
  shows "linesLoop n sh r [] (take (Suc i) ls) =
     linesLoop n sh r [] (take i ls) @
     (if \<not> endsWith (ls ! i) (shader_name sh) \<and> (sectionState n sh r (take i ls) \<or> n = 1)
      then (case compileRegex (ls ! i) of Some m \<Rightarrow> [compileResult sh m] | None \<Rightarrow> []) else [])
     @ (case linkRegex (name (shader_type sh)) (ls ! i) of
          Some m \<Rightarrow> [linkResult sh r m] | None \<Rightarrow> [])"
  using linesLoop_take_Suc [OF assms, of n sh r] by (simp add: snd_lineBody)

lemma endsWith_trans: "endsWith l n \<Longrightarrow> endsWith n t \<Longrightarrow> endsWith l t"
  by (auto simp: endsWith_iff)

lemma canonical_suffix:
  assumes "canonicalShader sh" and "endsWith l (shader_name sh)"
  shows "endsWith l ''.vert'' \<or> endsWith l ''.frag'' \<or> endsWith l ''.geom''
         \<or> endsWith l ''.tese'' \<or> endsWith l ''.tesc'' \<or> endsWith l ''.comp''"
proof -
  have 1: "endsWith l (''.'' @ char4 (shader_type sh))"
    using assms endsWith_trans by (simp add: canonicalShader_def)
  have "char4 (shader_type sh) \<in> set (map char4 shaderTypes)"
    using assms(1) by (simp add: canonicalShader_def)
  then have "char4 (shader_type sh) \<in> {''vert'', ''frag'', ''geom'', ''tese'', ''tesc'', ''comp''}"
    by (simp add: shaderTypes_def)
  then show ?thesis using 1 by auto
qed

lemma linesLoop_Nil: "linesLoop n sh r acc [] = acc"
  by (simp add: linesLoop_def)

lemma linesLoop_single:
  "linesLoop n sh r [] [l] =
     (if \<not> endsWith l (shader_name sh) \<and> n = 1
      then (case compileRegex l of Some m \<Rightarrow> [compileResult sh m] | None \<Rightarrow> []) else [])
     @ (case linkRegex (name (shader_type sh)) l of
          Some m \<Rightarrow> [linkResult sh r m] | None \<Rightarrow> [])"
  using linesLoop_snoc [of n sh r "[]" l]
  by (simp add: linesLoop_Nil sectionState_Nil snd_lineBody)

lemma parse_single_line:
  assumes "split output eol = [l]" and "\<not> endsWith l (shader_name sh)"
    and "compileRegex l = Some m"
  shows "parseGlslValidatorResponse eol [sh] output r = [compileResult sh m]"
proof -
  have "linkRegex (name (shader_type sh)) l = None"
    using assms(3) by (rule compile_excludes_link)
  then show ?thesis using assms by (simp add: parse_concat linesLoop_single)
qed

lemma ex_header: "canonicalShader sh \<Longrightarrow> \<not> endsWith exampleLine (shader_name sh)"
  using canonical_suffix [of sh exampleLine] by (auto simp: exampleLine_def endsWith_def)

lemma ex_result:
  "compileResult sh (''ERROR'', ''3'', ''5'', exampleMessage) =
     \<lparr>severity = ''error'', excerpt = exampleMessage,
      location =
        \<lparr>file = shader_fullFilename sh,
         position = ((Finite 4, Finite 2), (Finite 4, Finite 2))\<rparr>\<rparr>"
  using ex_trim
  by (simp add: compileResult_def ex_sev ex_parseInt exampleMessage_def minusOne_def
        greaterZero_def roundInt_def toNumber_def roundToDouble_def)

lemma empty_line_unmatched: "compileRegex [] = None" "linkRegex tn [] = None"
  by (simp_all add: compileRegex_def linkRegex_def)

lemma split_Nil: "split [] eol = (if eol = [] then [] else [[]])"
  by (simp add: split_def)

lemma parse_unmatched:
  assumes "\<forall>l \<in> set (split output eol). compileRegex l = None
             \<and> (\<forall>sh \<in> set inputs. linkRegex (name (shader_type sh)) l = None)"
  shows "parseGlslValidatorResponse eol inputs output r = []"
proof (rule ccontr)
  assume "parseGlslValidatorResponse eol inputs output r \<noteq> []"
  then obtain d where "d \<in> set (parseGlslValidatorResponse eol inputs output r)"
    by (cases "parseGlslValidatorResponse eol inputs output r") auto
  from parse_provenance [OF this] obtain sh l where
    "sh \<in> set inputs" "l \<in> set (split output eol)"
    "(\<exists>m. compileRegex l = Some m \<and> d = compileResult sh m)
           \<or> (\<exists>m. linkRegex (name (shader_type sh)) l = Some m \<and> d = linkResult sh r m)"
    by blast
  then show False using assms by auto
qed

lemma extMatch_iff:
  "extMatch seps tail s c \<longleftrightarrow>
     (\<exists>b. s = b @ c @ tail \<and> b \<noteq> [] \<and> last b \<in> set seps
          \<and> (\<forall>x \<in> set (butlast b). \<not> lineTerminator x))"
proof
  assume m: "extMatch seps tail s c"
  let ?n = "length s - length (c @ tail)"
  from m have "drop ?n s = c @ tail" "take ?n s \<noteq> []" "last (take ?n s) \<in> set seps"
    "\<forall>x \<in> set (butlast (take ?n s)). \<not> lineTerminator x"
    by (simp_all add: extMatch_def Let_def)
  moreover have "s = take ?n s @ drop ?n s" by simp
  ultimately have "s = take ?n s @ c @ tail \<and> take ?n s \<noteq> [] \<and> last (take ?n s) \<in> set seps
          \<and> (\<forall>x \<in> set (butlast (take ?n s)). \<not> lineTerminator x)" by simp
  then show "\<exists>b. s = b @ c @ tail \<and> b \<noteq> [] \<and> last b \<in> set seps
          \<and> (\<forall>x \<in> set (butlast b). \<not> lineTerminator x)" ..
next
  assume "\<exists>b. s = b @ c @ tail \<and> b \<noteq> [] \<and> last b \<in> set seps
          \<and> (\<forall>x \<in> set (butlast b). \<not> lineTerminator x)"
  then obtain b where b: "s = b @ c @ tail" "b \<noteq> []" "last b \<in> set seps"
          "\<forall>x \<in> set (butlast b). \<not> lineTerminator x" by blast
  then show "extMatch seps tail s c" by (simp add: extMatch_def Let_def)
qed

lemma extMatch_convention:
  "extMatch seps tail s c \<longleftrightarrow>
     (\<exists>sep \<in> set seps. endsWith s (sep # c @ tail)
        \<and> (\<forall>x \<in> set (take (length s - length (sep # c @ tail)) s). \<not> lineTerminator x))"
proof
  assume "extMatch seps tail s c"
  then obtain b where b: "s = b @ c @ tail" "b \<noteq> []" "last b \<in> set seps"
          "\<forall>x \<in> set (butlast b). \<not> lineTerminator x" by (auto simp: extMatch_iff)
  then have s: "s = butlast b @ last b # c @ tail"
    by (metis append_butlast_last_id append_Cons append_Nil append_assoc)
  then have "endsWith s (last b # c @ tail)" by (simp add: endsWith_iff)
  moreover have "take (length s - length (last b # c @ tail)) s = butlast b"
    using s by (metis append_eq_conv_conj diff_add_inverse2 length_append)
  ultimately show "\<exists>sep \<in> set seps. endsWith s (sep # c @ tail)
        \<and> (\<forall>x \<in> set (take (length s - length (sep # c @ tail)) s). \<not> lineTerminator x)"
    using b(3,4) by auto
next
  assume "\<exists>sep \<in> set seps. endsWith s (sep # c @ tail)
        \<and> (\<forall>x \<in> set (take (length s - length (sep # c @ tail)) s). \<not> lineTerminator x)"
  then obtain sep a where a: "sep \<in> set seps" "s = a @ sep # c @ tail"
     "\<forall>x \<in> set (take (length s - length (sep # c @ tail)) s). \<not> lineTerminator x"
    by (auto simp: endsWith_iff)
  have "take (length s - length (sep # c @ tail)) s = a" using a(2) by simp
  then have "s = (a @ [sep]) @ c @ tail \<and> a @ [sep] \<noteq> [] \<and> last (a @ [sep]) \<in> set seps
     \<and> (\<forall>x \<in> set (butlast (a @ [sep])). \<not> lineTerminator x)"
    using a by simp
  then show "extMatch seps tail s c" unfolding extMatch_iff by blast
qed

lemma extRegex_None:
  "extRegex seps codes tail s = None \<longleftrightarrow> \<not> matchesConvention seps codes tail s"
proof -
  have "extRegex seps codes tail s = None \<longleftrightarrow> (\<forall>c \<in> set codes. \<not> extMatch seps tail s c)"
  proof -
    have "extRegex seps codes tail s = None \<longleftrightarrow> List.find (extMatch seps tail s) codes = None"
      by (simp add: extRegex_def split: option.splits)
    then show ?thesis by (auto simp: find_None_iff)
  qed
  then show ?thesis by (simp add: matchesConvention_def extMatch_convention)
qed

lemma extRegex_Some:
  assumes "extRegex seps codes tail s = Some (b, c)"
  shows "s = b @ c @ tail \<and> c \<in> set codes \<and> b \<noteq> [] \<and> last b \<in> set seps"
proof -
  from assms have f: "List.find (extMatch seps tail s) codes = Some c"
    and b: "b = take (length s - length (c @ tail)) s"
    by (auto simp: extRegex_def split: option.splits)
  from f have c: "c \<in> set codes" "extMatch seps tail s c"
    by (auto simp: find_Some_iff)
  from c(2) obtain b' where b': "s = b' @ c @ tail" "b' \<noteq> []" "last b' \<in> set seps"
    by (auto simp: extMatch_iff)
  then have "b = b'" using b by simp
  then show ?thesis using b' c(1) by simp
qed

lemma lookup_Some:
  assumes "shaderTypeLookup field v = Some t"
  shows "t \<in> set shaderTypes \<and> field t = Some v"
proof -
  from assms obtain ts where "filter (\<lambda>shaderType. field shaderType = Some v) shaderTypes = t # ts"
    by (auto simp: shaderTypeLookup_def split: list.splits)
  then have "t \<in> set (filter (\<lambda>shaderType. field shaderType = Some v) shaderTypes)" by simp
  then show ?thesis by simp
qed

lemma lookup_char1: "c \<in> set [''v'', ''g'', ''f''] \<Longrightarrow> shaderByChar1 c \<noteq> None"
  by (auto simp: shaderByChar1_def shaderTypeLookup_def shaderTypes_def)

lemma lookup_char2:
  "c \<in> set [''vs'', ''tc'', ''te'', ''gs'', ''fs'', ''cs''] \<Longrightarrow> shaderByChar2 c \<noteq> None"
  by (auto simp: shaderByChar2_def shaderTypeLookup_def shaderTypes_def)

lemma lookup_char4:
  "c \<in> set [''vert'', ''frag'', ''geom'', ''tesc'', ''tese'', ''comp''] \<Longrightarrow> shaderByChar4 c \<noteq> None"
  by (auto simp: shaderByChar4_def shaderTypeLookup_def shaderTypes_def)

lemmas fileRegex_defs =
  char1glslRegex_def char2glslRegex_def char1shRegex_def char2Regex_def defaultRegex_def

lemma regexes_None:
  "(char1glslRegex s = None \<and> char2glslRegex s = None \<and> char1shRegex s = None
     \<and> char2Regex s = None \<and> defaultRegex s = None) \<longleftrightarrow> \<not> codeConventions s"
  by (simp add: fileRegex_defs extRegex_None codeConventions_def)

lemma char1glsl_lookup: "char1glslRegex s = Some (b, c) \<Longrightarrow> shaderByChar1 c \<noteq> None"
  using extRegex_Some [of "''._''" "[''v'', ''g'', ''f'']" "''.glsl''" s b c] lookup_char1 [of c]
  by (simp add: char1glslRegex_def)

lemma char2glsl_lookup: "char2glslRegex s = Some (b, c) \<Longrightarrow> shaderByChar2 c \<noteq> None"
  using extRegex_Some [of "''._''" "[''vs'', ''tc'', ''te'', ''gs'', ''fs'', ''cs'']" "''.glsl''" s b c]
    lookup_char2 [of c]
  by (simp add: char2glslRegex_def)

lemma char1sh_lookup: "char1shRegex s = Some (b, c) \<Longrightarrow> shaderByChar1 c \<noteq> None"
  using extRegex_Some [of "''.''" "[''v'', ''g'', ''f'']" "''sh''" s b c] lookup_char1 [of c]
  by (simp add: char1shRegex_def)

lemma char2_lookup: "char2Regex s = Some (b, c) \<Longrightarrow> shaderByChar2 c \<noteq> None"
  using extRegex_Some [of "''.''" "[''vs'', ''tc'', ''te'', ''gs'', ''fs'', ''cs'']" "''''" s b c]
    lookup_char2 [of c]
  by (simp add: char2Regex_def)

lemma default_lookup: "defaultRegex s = Some (b, c) \<Longrightarrow> shaderByChar4 c \<noteq> None"
  using extRegex_Some [of "''.''" "[''vert'', ''frag'', ''geom'', ''tesc'', ''tese'', ''comp'']" "''''" s b c]
    lookup_char4 [of c]
  by (simp add: defaultRegex_def)

lemma extract_matchFileName:
  "extractShaderFilenameTokens f =
     (case matchFileName (path_basename f) of
           None \<Rightarrow> Inl UnknownShaderType
         | Some (base, None) \<Rightarrow> Inl TypeErrorUndefined
         | Some (base, Some shaderType) \<Rightarrow>
             Inr \<lparr>baseFilename = base,
                      baseShaderType = shaderType,
                      dirName = path_dirname f,
                      outFilename = (if \<not> endsWith base ''.'' then base @ ''.'' else base)
                                      @ char4 shaderType,
                      fullFilename = f\<rparr>)"
  by (simp add: extractShaderFilenameTokens_def Let_def split: option.splits prod.splits)

lemma matchFileName_None: "matchFileName s = None \<longleftrightarrow> \<not> codeConventions s"
  unfolding regexes_None [symmetric]
  by (simp add: matchFileName_def split: option.splits)

lemma matchFileName_Some:
  assumes "matchFileName s = Some (b, t)"
  shows "\<exists>c ty tail. t = Some ty \<and> s = b @ c @ tail \<and> b \<noteq> []
     \<and> (last b = CHR ''.'' \<or> last b = CHR ''_'') \<and> ty \<in> set shaderTypes
     \<and> (tail = ''.glsl'' \<and> length c = 1 \<and> char1 ty = Some c
        \<or> tail = ''.glsl'' \<and> length c = 2 \<and> char2 ty = c
        \<or> tail = ''sh'' \<and> length c = 1 \<and> char1 ty = Some c
        \<or> tail = '''' \<and> length c = 2 \<and> char2 ty = c
        \<or> tail = '''' \<and> length c = 4 \<and> char4 ty = c)"
proof -
  consider c where "char1glslRegex s = Some (b, c)" "t = shaderByChar1 c"
    | c where "char2glslRegex s = Some (b, c)" "t = shaderByChar2 c"
    | c where "char1shRegex s = Some (b, c)" "t = shaderByChar1 c"
    | c where "char2Regex s = Some (b, c)" "t = shaderByChar2 c"
    | c where "defaultRegex s = Some (b, c)" "t = shaderByChar4 c"
    using assms by (auto simp: matchFileName_def split: option.splits)
  then show ?thesis
  proof cases
    case 1
    from char1glsl_lookup [OF 1(1)] obtain ty where ty: "t = Some ty" using 1(2) by auto
    have "ty \<in> set shaderTypes \<and> char1 ty = Some c"
      using ty 1(2) lookup_Some [of char1 c ty] by (simp add: shaderByChar1_def)
    moreover have "s = b @ c @ ''.glsl'' \<and> c \<in> set [''v'', ''g'', ''f''] \<and> b \<noteq> [] \<and> last b \<in> set ''._''"
      using 1(1) unfolding char1glslRegex_def by (rule extRegex_Some)
    ultimately have "t = Some ty \<and> s = b @ c @ ''.glsl'' \<and> b \<noteq> []
        \<and> (last b = CHR ''.'' \<or> last b = CHR ''_'') \<and> ty \<in> set shaderTypes
        \<and> length c = 1 \<and> char1 ty = Some c"
      using ty by auto
    then show ?thesis by blast
  next
    case 2
    from char2glsl_lookup [OF 2(1)] obtain ty where ty: "t = Some ty" using 2(2) by auto
    have "ty \<in> set shaderTypes \<and> char2 ty = c"
      using ty 2(2) lookup_Some [of "\<lambda>t. Some (char2 t)" c ty] by (simp add: shaderByChar2_def)
    moreover have "s = b @ c @ ''.glsl'' \<and> c \<in> set [''vs'', ''tc'', ''te'', ''gs'', ''fs'', ''cs'']
        \<and> b \<noteq> [] \<and> last b \<in> set ''._''"
      using 2(1) unfolding char2glslRegex_def by (rule extRegex_Some)
    ultimately have "t = Some ty \<and> s = b @ c @ ''.glsl'' \<and> b \<noteq> []
        \<and> (last b = CHR ''.'' \<or> last b = CHR ''_'') \<and> ty \<in> set shaderTypes
        \<and> length c = 2 \<and> char2 ty = c"
      using ty by auto
    then show ?thesis by blast
  next
    case 3
    from char1sh_lookup [OF 3(1)] obtain ty where ty: "t = Some ty" using 3(2) by auto
    have "ty \<in> set shaderTypes \<and> char1 ty = Some c"
      using ty 3(2) lookup_Some [of char1 c ty] by (simp add: shaderByChar1_def)
    moreover have "s = b @ c @ ''sh'' \<and> c \<in> set [''v'', ''g'', ''f''] \<and> b \<noteq> [] \<and> last b \<in> set ''.''"
      using 3(1) unfolding char1shRegex_def by (rule extRegex_Some)
    ultimately have "t = Some ty \<and> s = b @ c @ ''sh'' \<and> b \<noteq> []
        \<and> (last b = CHR ''.'' \<or> last b = CHR ''_'') \<and> ty \<in> set shaderTypes
        \<and> length c = 1 \<and> char1 ty = Some c"
      using ty by auto
    then show ?thesis by blast
  next
    case 4
    from char2_lookup [OF 4(1)] obtain ty where ty: "t = Some ty" using 4(2) by auto
    have "ty \<in> set shaderTypes \<and> char2 ty = c"
      using ty 4(2) lookup_Some [of "\<lambda>t. Some (char2 t)" c ty] by (simp add: shaderByChar2_def)
    moreover have "s = b @ c @ '''' \<and> c \<in> set [''vs'', ''tc'', ''te'', ''gs'', ''fs'', ''cs'']
        \<and> b \<noteq> [] \<and> last b \<in> set ''.''"
      using 4(1) unfolding char2Regex_def by (rule extRegex_Some)
    ultimately have "t = Some ty \<and> s = b @ c @ '''' \<and> b \<noteq> []
        \<and> (last b = CHR ''.'' \<or> last b = CHR ''_'') \<and> ty \<in> set shaderTypes
        \<and> length c = 2 \<and> char2 ty = c"
      using ty by auto
    then show ?thesis by blast
  next
    case 5
    from default_lookup [OF 5(1)] obtain ty where ty: "t = Some ty" using 5(2) by auto
    have "ty \<in> set shaderTypes \<and> char4 ty = c"
      using ty 5(2) lookup_Some [of "\<lambda>t. Some (char4 t)" c ty] by (simp add: shaderByChar4_def)
    moreover have "s = b @ c @ '''' \<and> c \<in> set [''vert'', ''frag'', ''geom'', ''tesc'', ''tese'', ''comp'']
        \<and> b \<noteq> [] \<and> last b \<in> set ''.''"
      using 5(1) unfolding defaultRegex_def by (rule extRegex_Some)
    ultimately have "t = Some ty \<and> s = b @ c @ '''' \<and> b \<noteq> []
        \<and> (last b = CHR ''.'' \<or> last b = CHR ''_'') \<and> ty \<in> set shaderTypes
        \<and> length c = 4 \<and> char4 ty = c"
      using ty by auto
    then show ?thesis by blast
  qed
qed

lemma spec_in_code:
  assumes "specConventions s" and "\<forall>x \<in> set s. \<not> lineTerminator x"
  shows "codeConventions s"
proof -
  have m: "matchesConvention seps codes tail s"
    if "c \<in> set codes" "CHR ''.'' \<in> set seps" "endsWith s (''.'' @ c @ tail)"
    for seps codes tail c
  proof -
    have "\<forall>x \<in> set (take (length s - length (CHR ''.'' # c @ tail)) s). \<not> lineTerminator x"
      using assms(2) by (meson in_set_takeD)
    then show ?thesis using that unfolding matchesConvention_def by auto
  qed
  from assms(1) consider
      c where "c \<in> set [''v'', ''g'', ''f'']" "endsWith s (''.'' @ c @ ''.glsl'')"
    | c where "c \<in> set [''vs'', ''tc'', ''te'', ''gs'', ''fs'', ''cs'']" "endsWith s (''.'' @ c @ ''.glsl'')"
    | c where "c \<in> set [''v'', ''g'', ''f'']" "endsWith s (''.'' @ c @ ''sh'')"
    | c where "c \<in> set [''vs'', ''tc'', ''te'', ''gs'', ''fs'', ''cs'']" "endsWith s (''.'' @ c)"
    | c where "c \<in> set [''vert'', ''frag'', ''geom'', ''tesc'', ''tese'', ''comp'']" "endsWith s (''.'' @ c)"
    unfolding specConventions_def by blast
  then show ?thesis
  proof cases
    case 1
    then have "matchesConvention ''._'' [''v'', ''g'', ''f''] ''.glsl'' s"
      using m [where c = c] by simp
    then show ?thesis by (simp add: codeConventions_def)
  next
    case 2
    then have "matchesConvention ''._'' [''vs'', ''tc'', ''te'', ''gs'', ''fs'', ''cs''] ''.glsl'' s"
      using m [where c = c] by simp
    then show ?thesis by (simp add: codeConventions_def)
  next
    case 3
    then have "matchesConvention ''.'' [''v'', ''g'', ''f''] ''sh'' s"
      using m [where c = c] by simp
    then show ?thesis by (simp add: codeConventions_def)
  next
    case 4
    then have "matchesConvention ''.'' [''vs'', ''tc'', ''te'', ''gs'', ''fs'', ''cs''] '''' s"
      using m [where c = c] by simp
    then show ?thesis by (simp add: codeConventions_def)
  next
    case 5
    then have "matchesConvention ''.'' [''vert'', ''frag'', ''geom'', ''tesc'', ''tese'', ''comp''] '''' s"
      using m [where c = c] by simp
    then show ?thesis by (simp add: codeConventions_def)
  qed
qed

lemma extract_Unknown:
  "extractShaderFilenameTokens f = Inl UnknownShaderType \<longleftrightarrow> \<not> codeConventions (path_basename f)"
proof (cases "matchFileName (path_basename f)")
  case None
  then show ?thesis using matchFileName_None [of "path_basename f"]
    by (simp add: extract_matchFileName)
next
  case (Some p)
  obtain b t where p: "p = (b, t)" by (cases p)
  from matchFileName_Some [of "path_basename f" b t] Some p obtain ty where "t = Some ty" by auto
  then show ?thesis using Some p matchFileName_None [of "path_basename f"]
    by (simp add: extract_matchFileName)
qed

lemma extract_not_TypeError: "extractShaderFilenameTokens f \<noteq> Inl TypeErrorUndefined"
proof (cases "matchFileName (path_basename f)")
  case None
  then show ?thesis by (simp add: extract_matchFileName)
next
  case (Some p)
  obtain b t where p: "p = (b, t)" by (cases p)
  from matchFileName_Some [of "path_basename f" b t] Some p obtain ty where "t = Some ty" by auto
  then show ?thesis using Some p by (simp add: extract_matchFileName)
qed

lemma extract_success:
  assumes "codeConventions (path_basename f)"
  shows "\<exists>tok code tail.
           extractShaderFilenameTokens f = Inr tok
           \<and> path_basename f = baseFilename tok @ code @ tail
           \<and> baseFilename tok \<noteq> []
           \<and> (last (baseFilename tok) = CHR ''.'' \<or> last (baseFilename tok) = CHR ''_'')
           \<and> baseShaderType tok \<in> set shaderTypes
           \<and> (tail = ''.glsl'' \<and> length code = 1 \<and> char1 (baseShaderType tok) = Some code
              \<or> tail = ''.glsl'' \<and> length code = 2 \<and> char2 (baseShaderType tok) = code
              \<or> tail = ''sh'' \<and> length code = 1 \<and> char1 (baseShaderType tok) = Some code
              \<or> tail = '''' \<and> length code = 2 \<and> char2 (baseShaderType tok) = code
              \<or> tail = '''' \<and> length code = 4 \<and> char4 (baseShaderType tok) = code)
           \<and> outFilename tok =
                (if last (baseFilename tok) = CHR ''.'' then baseFilename tok
                 else baseFilename tok @ ''.'') @ char4 (baseShaderType tok)
           \<and> fullFilename tok = f"
proof -
  from assms obtain p where p: "matchFileName (path_basename f) = Some p"
    using matchFileName_None [of "path_basename f"] by auto
  obtain b t where bt: "p = (b, t)" by (cases p)
  from matchFileName_Some [of "path_basename f" b t] p bt
  obtain c ty tail where x: "t = Some ty" "path_basename f = b @ c @ tail" "b \<noteq> []"
     "last b = CHR ''.'' \<or> last b = CHR ''_''" "ty \<in> set shaderTypes"
     "tail = ''.glsl'' \<and> length c = 1 \<and> char1 ty = Some c
        \<or> tail = ''.glsl'' \<and> length c = 2 \<and> char2 ty = c
        \<or> tail = ''sh'' \<and> length c = 1 \<and> char1 ty = Some c
        \<or> tail = '''' \<and> length c = 2 \<and> char2 ty = c
        \<or> tail = '''' \<and> length c = 4 \<and> char4 ty = c"
    by auto
  let ?tok = "\<lparr>baseFilename = b, baseShaderType = ty, dirName = path_dirname f,
                outFilename = (if \<not> endsWith b ''.'' then b @ ''.'' else b) @ char4 ty,
                fullFilename = f\<rparr>"
  have e: "extractShaderFilenameTokens f = Inr ?tok"
    using p bt x(1) by (simp add: extract_matchFileName)
  have d: "endsWith b ''.'' \<longleftrightarrow> last b = CHR ''.''"
    using x(3) by (cases b rule: rev_cases) (auto simp: endsWith_iff)
  have "extractShaderFilenameTokens f = Inr ?tok
           \<and> path_basename f = baseFilename ?tok @ c @ tail
           \<and> baseFilename ?tok \<noteq> []
           \<and> (last (baseFilename ?tok) = CHR ''.'' \<or> last (baseFilename ?tok) = CHR ''_'')
           \<and> baseShaderType ?tok \<in> set shaderTypes
           \<and> (tail = ''.glsl'' \<and> length c = 1 \<and> char1 (baseShaderType ?tok) = Some c
              \<or> tail = ''.glsl'' \<and> length c = 2 \<and> char2 (baseShaderType ?tok) = c
              \<or> tail = ''sh'' \<and> length c = 1 \<and> char1 (baseShaderType ?tok) = Some c
              \<or> tail = '''' \<and> length c = 2 \<and> char2 (baseShaderType ?tok) = c
              \<or> tail = '''' \<and> length c = 4 \<and> char4 (baseShaderType ?tok) = c)
           \<and> outFilename ?tok =
                (if last (baseFilename ?tok) = CHR ''.'' then baseFilename ?tok
                 else baseFilename ?tok @ ''.'') @ char4 (baseShaderType ?tok)
           \<and> fullFilename ?tok = f"
    using e x(2-6) d by simp
  then show ?thesis by blast
qed

lemma ex_classify:
  "extractShaderFilenameTokens ''foo.fs.glsl'' =
     Inr \<lparr>baseFilename = ''foo.'',
          baseShaderType = \<lparr>char1 = Some ''f'', char2 = ''fs'', char4 = ''frag'', name = ''fragment''\<rparr>,
          dirName = ''.'', outFilename = ''foo.frag'', fullFilename = ''foo.fs.glsl''\<rparr>"
  "extractShaderFilenameTokens ''foo.vsh'' =
     Inr \<lparr>baseFilename = ''foo.'',
          baseShaderType = \<lparr>char1 = Some ''v'', char2 = ''vs'', char4 = ''vert'', name = ''vertex''\<rparr>,
          dirName = ''.'', outFilename = ''foo.vert'', fullFilename = ''foo.vsh''\<rparr>"
  "extractShaderFilenameTokens ''readme.txt'' = Inl UnknownShaderType"
  "extractShaderFilenameTokens ''foo_v.glsl'' =
     Inr \<lparr>baseFilename = ''foo_'',
          baseShaderType = \<lparr>char1 = Some ''v'', char2 = ''vs'', char4 = ''vert'', name = ''vertex''\<rparr>,
          dirName = ''.'', outFilename = ''foo_.vert'', fullFilename = ''foo_v.glsl''\<rparr>"
  by (simp_all add: extract_matchFileName matchFileName_def fileRegex_defs extRegex_def extMatch_def lineTerminator_def path_basename_def path_dirname_def shaderByChar1_def shaderByChar2_def shaderByChar4_def shaderTypeLookup_def shaderTypes_def endsWith_def)

lemmas regex_eval =
  compileRegex_def linkRegex_def severityChar_def digit_def stripPrefix_def startsWith_def
  lineTerminator_def Let_def

lemma canonical_examples: "canonicalShader fragmentShader" "canonicalShader vertexShader"
  by (simp_all add: canonicalShader_def fragmentShader_def vertexShader_def shaderTypes_def
        endsWith_def)

lemma builtin_examples:
  "shader_type fragmentShader \<in> set shaderTypes" "shader_type vertexShader \<in> set shaderTypes"
  using canonical_examples by (simp_all add: canonicalShader_def)

lemma notice_compile: "compileRegex noticeLine = Some (''NOTICE'', ''1'', ''1'', ''foo'')"
  by (simp add: noticeLine_def regex_eval)

lemma notice_split: "split noticeLine [CHR 0x0A] = [noticeLine]"
  by (simp add: noticeLine_def split_def startsWith_def)

lemma notice_header: "canonicalShader sh \<Longrightarrow> \<not> endsWith noticeLine (shader_name sh)"
  using canonical_suffix [of sh noticeLine] by (auto simp: noticeLine_def endsWith_def)

lemma notice_result:
  "compileResult sh (''NOTICE'', ''1'', ''1'', ''foo'') =
     \<lparr>severity = ''warning'', excerpt = ''foo'',
      location = \<lparr>file = shader_fullFilename sh, position = ((Finite 0, Finite 0), (Finite 0, Finite 0))\<rparr>\<rparr>"
  by (simp add: compileResult_def ex_sev ex_parseInt trim_def whiteSpace_def minusOne_def
        greaterZero_def roundInt_def toNumber_def roundToDouble_def)

lemma notice_parse:
  assumes "canonicalShader sh"
  shows "parseGlslValidatorResponse [CHR 0x0A] [sh] noticeLine r =
     [\<lparr>severity = ''warning'', excerpt = ''foo'',
       location = \<lparr>file = shader_fullFilename sh, position = ((Finite 0, Finite 0), (Finite 0, Finite 0))\<rparr>\<rparr>]"
  using parse_single_line [OF notice_split notice_header [OF assms] notice_compile, of r]
  by (simp add: notice_result)

lemma link_example:
  "linkRegex ''fragment'' linkLine = Some (''ERROR'', ''too many varyings'')"
  by (simp add: linkLine_def regex_eval)

lemma trim_example: "trim ''too many varyings'' = ''too many varyings''"
  by (simp add: trim_def whiteSpace_def)

lemma header_example:
  "compileRegex ''ERROR: 1:1: foo.frag'' = Some (''ERROR'', ''1'', ''1'', ''foo.frag'')"
  "endsWith ''ERROR: 1:1: foo.frag'' (shader_name fragmentShader)"
  "split ''ERROR: 1:1: foo.frag'' [CHR 0x0A] = [''ERROR: 1:1: foo.frag'']"
  by (simp_all add: regex_eval endsWith_def fragmentShader_def split_def)

lemma section_example:
  "compileRegex ''ERROR: 0:7: a'' = Some (''ERROR'', ''0'', ''7'', ''a'')"
  "\<not> endsWith ''ERROR: 0:7: a'' (shader_name fragmentShader)"
  "endsWith ''foo.frag'' (shader_name fragmentShader)"
  by (simp_all add: regex_eval endsWith_def fragmentShader_def)

lemma junk_example:
  "compileRegex ''Validation failed'' = None"
  "linkRegex (name (shader_type fragmentShader)) ''Validation failed'' = None"
  "linkRegex (name (shader_type vertexShader)) ''Validation failed'' = None"
  "split ''Validation failed'' [CHR 0x0A] = [''Validation failed'']"
  by (simp_all add: regex_eval fragmentShader_def vertexShader_def split_def)

lemma lineBody_at_most_one: "length (snd (lineBody n sh r (st, []) l)) \<le> 1"
proof (cases "compileRegex l")
  case None
  then show ?thesis
    by (cases "linkRegex (name (shader_type sh)) l") (simp_all add: snd_lineBody)
next
  case (Some m)
  then have "linkRegex (name (shader_type sh)) l = None" by (rule compile_excludes_link)
  then show ?thesis using Some by (simp add: snd_lineBody)
qed

lemma linesLoop_length: "length (linesLoop n sh r [] ls) \<le> length ls"
proof (induction ls rule: rev_induct)
  case Nil
  show ?case by (simp add: linesLoop_Nil)
next
  case (snoc l ls)
  show ?case
    using snoc.IH lineBody_at_most_one [of n sh r "sectionState n sh r ls" l]
    by (simp add: linesLoop_snoc)
qed

lemma concat_length_bound:
  "(\<And>x. x \<in> set xs \<Longrightarrow> length (f x) \<le> k) \<Longrightarrow> length (concat (map f xs)) \<le> length xs * k"
proof (induction xs)
  case Nil
  show ?case by simp
next
  case (Cons x xs)
  have "length (f x) \<le> k" using Cons.prems by simp
  moreover have "length (concat (map f xs)) \<le> length xs * k" using Cons by simp
  ultimately show ?case by simp
qed

lemma parse_length:
  "length (parseGlslValidatorResponse eol inputs output r)
     \<le> length inputs * length (split output eol)"
  unfolding parse_concat by (rule concat_length_bound) (rule linesLoop_length)

text \<open>
  The record that \<open>lint\<close> builds from the tokens of a classified file is canonical.
\<close>

lemma classified_shader_canonical:
  assumes "extractShaderFilenameTokens f = Inr tok"
  shows "canonicalShader
           \<lparr>shader_type = baseShaderType tok, shader_name = outFilename tok,
            shader_fullFilename = Some f, shader_contents = contents,
            shader_outFilename = None\<rparr>"
proof -
  from assms obtain b ty where m: "matchFileName (path_basename f) = Some (b, Some ty)"
    and t: "baseShaderType tok = ty"
       "outFilename tok = (if \<not> endsWith b ''.'' then b @ ''.'' else b) @ char4 ty"
    by (auto simp: extract_matchFileName split: option.splits)
  from matchFileName_Some [OF m] have ty: "ty \<in> set shaderTypes" by auto
  have "endsWith (outFilename tok) (''.'' @ char4 ty)"
  proof (cases "endsWith b ''.''")
    case True
    then obtain a where "b = a @ ''.''" by (auto simp: endsWith_iff)
    then have "outFilename tok = a @ ''.'' @ char4 ty" using t(2) True by simp
    then show ?thesis unfolding endsWith_iff by blast
  next
    case False
    then have "outFilename tok = b @ ''.'' @ char4 ty" using t(2) by simp
    then show ?thesis unfolding endsWith_iff by blast
  qed
  then show ?thesis using ty t(1) by (simp add: canonicalShader_def)
qed

lemma of_char_lowerChar:
  "(of_char (lowerChar a) :: nat) =
     (if (65 \<le> (of_char a :: nat) \<and> (of_char a :: nat) \<le> 90)
         \<or> (192 \<le> (of_char a :: nat) \<and> (of_char a :: nat) \<le> 222 \<and> (of_char a :: nat) \<noteq> 215)
      then (of_char a + 32) mod 256 else of_char a)"
  by (simp add: lowerChar_def Let_def)

lemma lowerChar_code:
  fixes k :: nat
  assumes "97 \<le> k" and "k \<le> 122"
  shows "(of_char (lowerChar a) :: nat) = k \<longleftrightarrow> (of_char a :: nat) = k \<or> (of_char a :: nat) = k - 32"
proof -
  define n :: nat where "n = of_char a"
  have lt: "n < 256" by (simp add: n_def)
  have "(of_char (lowerChar a) :: nat) =
     (if (65 \<le> n \<and> n \<le> 90) \<or> (192 \<le> n \<and> n \<le> 222 \<and> n \<noteq> 215)
      then (n + 32) mod 256 else n)"
    unfolding n_def by (rule of_char_lowerChar)
  moreover have "((if (65 \<le> n \<and> n \<le> 90) \<or> (192 \<le> n \<and> n \<le> 222 \<and> n \<noteq> 215)
      then (n + 32) mod 256 else n) = k) \<longleftrightarrow> n = k \<or> n = k - 32"
    using assms lt by (cases "65 \<le> n \<and> n \<le> 90"; cases "192 \<le> n \<and> n \<le> 222 \<and> n \<noteq> 215") auto
  ultimately show ?thesis by (simp add: n_def)
qed

lemma small_letter_code:
  assumes "b \<in> set ''abcdefghijklmnopqrstuvwxyz''"
  shows "97 \<le> (of_char b :: nat) \<and> (of_char b :: nat) \<le> 122
         \<and> (of_char (capitalOf b) :: nat) = of_char b - 32"
  using assms by (auto simp: capitalOf_def)

lemma lowerChar_letter:
  assumes "b \<in> set ''abcdefghijklmnopqrstuvwxyz''"
  shows "lowerChar a = b \<longleftrightarrow> a = b \<or> a = capitalOf b"
proof -
  note c = small_letter_code [OF assms]
  have "lowerChar a = b \<longleftrightarrow> (of_char (lowerChar a) :: nat) = of_char b"
    by (simp only: of_char_eq_iff)
  also have "\<dots> \<longleftrightarrow> (of_char a :: nat) = of_char b \<or> (of_char a :: nat) = of_char b - 32"
    using c by (intro lowerChar_code) simp_all
  also have "\<dots> \<longleftrightarrow> (of_char a :: nat) = of_char b \<or> (of_char a :: nat) = of_char (capitalOf b)"
    using c by simp
  also have "\<dots> \<longleftrightarrow> a = b \<or> a = capitalOf b"
    by (simp only: of_char_eq_iff)
  finally show ?thesis .
qed

lemma toLowerCase_match:
  assumes "\<forall>b \<in> set t. b \<in> set ''abcdefghijklmnopqrstuvwxyz''"
  shows "toLowerCase w = t \<longleftrightarrow> caseInsensitiveMatch w t"
  using assms
proof (induction w arbitrary: t)
  case Nil
  show ?case by (cases t) (simp_all add: toLowerCase_def caseInsensitiveMatch_def)
next
  case (Cons a w)
  show ?case
  proof (cases t)
    case Nil
    then show ?thesis by (simp add: toLowerCase_def caseInsensitiveMatch_def)
  next
    case (Cons b t')
    have b: "b \<in> set ''abcdefghijklmnopqrstuvwxyz''"
      and t': "\<forall>b \<in> set t'. b \<in> set ''abcdefghijklmnopqrstuvwxyz''"
      using Cons.prems Cons by simp_all
    have "toLowerCase w = t' \<longleftrightarrow> caseInsensitiveMatch w t'" using t' by (rule Cons.IH)
    then show ?thesis
      using lowerChar_letter [OF b, of a] Cons
      by (simp add: toLowerCase_def caseInsensitiveMatch_def)
  qed
qed

lemma getSeverity_match:
  "getSeverity w =
     (if caseInsensitiveMatch w ''error'' then ''error''
      else if caseInsensitiveMatch w ''warning'' then ''warning''
      else if caseInsensitiveMatch w ''info'' then ''info''
      else ''warning'')"
proof -
  have e: "toLowerCase w = ''error'' \<longleftrightarrow> caseInsensitiveMatch w ''error''"
    by (rule toLowerCase_match) simp
  have a: "toLowerCase w = ''warning'' \<longleftrightarrow> caseInsensitiveMatch w ''warning''"
    by (rule toLowerCase_match) simp
  have i: "toLowerCase w = ''info'' \<longleftrightarrow> caseInsensitiveMatch w ''info''"
    by (rule toLowerCase_match) simp
  show ?thesis
    unfolding e [symmetric] a [symmetric] i [symmetric]
    by (simp add: getSeverity_def VALID_SEVERITY_def Let_def)
qed

lemma sev_examples:
  "getSeverity ''ERROR'' = ''error''" "getSeverity ''WARNING'' = ''warning''"
  "getSeverity ''INFO'' = ''info''" "getSeverity ''Error'' = ''error''"
  "getSeverity ''info'' = ''info''" "getSeverity ''NOTICE'' = ''warning''"
  "getSeverity ''ERRORS'' = ''warning''"
  by code_simp+

lemma roundToDouble_nonneg: "0 \<le> n \<Longrightarrow> 0 \<le> roundToDouble n"
  by (simp add: roundToDouble_def Let_def pos_imp_zdiv_nonneg_iff)

lemma toNumber_nonneg: "0 \<le> n \<Longrightarrow> nonNegative (toNumber n)"
  using roundToDouble_nonneg [of n] by (simp add: toNumber_def nonNegative_def Let_def)

lemma toNumber_exact: "n < 2 ^ 53 \<Longrightarrow> toNumber n = Finite n"
proof -
  assume a: "n < 2 ^ 53"
  have "(2::int) ^ 53 < 2 ^ 1024" by simp
  then have "n < 2 ^ 1024" using a by linarith
  then show ?thesis using a by (simp add: toNumber_def roundToDouble_def)
qed

text \<open>The expression \<open>x > 0 ? x - 1 : 0\<close>.\<close>

lemma clamp_nonneg:
  "nonNegative (if greaterZero x then minusOne x else Finite 0)"
proof (cases x)
  case (Finite n)
  show ?thesis
  proof (cases "0 < n")
    case True
    then have "nonNegative (toNumber (n - 1))" by (intro toNumber_nonneg) simp
    then show ?thesis using True Finite by (simp add: greaterZero_def minusOne_def roundInt_def)
  next
    case False
    then show ?thesis using Finite by (simp add: greaterZero_def nonNegative_def)
  qed
next
  case PosInfinity
  then show ?thesis by (simp add: greaterZero_def minusOne_def nonNegative_def)
next
  case NegInfinity
  then show ?thesis by (simp add: greaterZero_def nonNegative_def)
qed

lemma clamp_exact:
  assumes "decimalValue ds < 2 ^ 53"
  shows "(if greaterZero (parseInt ds) then minusOne (parseInt ds) else Finite 0)
           = Finite (max 0 (decimalValue ds - 1))"
proof -
  have p: "parseInt ds = Finite (decimalValue ds)"
    using assms by (simp add: parseInt_def toNumber_exact)
  show ?thesis
  proof (cases "0 < decimalValue ds")
    case True
    have "decimalValue ds - 1 < 2 ^ 53" using assms by simp
    then have "toNumber (decimalValue ds - 1) = Finite (decimalValue ds - 1)"
      by (rule toNumber_exact)
    then show ?thesis using True p by (simp add: greaterZero_def minusOne_def roundInt_def)
  next
    case False
    then show ?thesis using p by (simp add: greaterZero_def)
  qed
qed

lemma compileResult_position:
  "position (location (compileResult sh (g1, g2, g3, g4))) =
     ((if greaterZero (parseInt g3) then minusOne (parseInt g3) else Finite 0,
       if greaterZero (parseInt g2) then minusOne (parseInt g2) else Finite 0),
      (if greaterZero (parseInt g3) then minusOne (parseInt g3) else Finite 0,
       if greaterZero (parseInt g2) then minusOne (parseInt g2) else Finite 0))"
  by (simp add: compileResult_def Let_def)

lemma position_examples:
  "position (location (compileResult sh (''ERROR'', ''0'', ''7'', ''a''))) =
     ((Finite 6, Finite 0), (Finite 6, Finite 0))"
  "position (location (compileResult sh (''ERROR'', ''3'', ''9007199254740993'', ''a''))) =
     ((Finite 9007199254740991, Finite 2), (Finite 9007199254740991, Finite 2))"
  unfolding compileResult_position by (simp_all add: number_eval)

lemma section_result:
  "compileResult fragmentShader (''ERROR'', ''0'', ''7'', ''a'') =
     \<lparr>severity = ''error'', excerpt = ''a'',
      location =
        \<lparr>file = Some ''/work/foo.fs.glsl'',
         position = ((Finite 6, Finite 0), (Finite 6, Finite 0))\<rparr>\<rparr>"
  by (simp add: compileResult_def ex_sev ex_parseInt trim_def whiteSpace_def minusOne_def
        greaterZero_def roundInt_def toNumber_def roundToDouble_def fragmentShader_def Let_def)

lemma section_parse:
  "parseGlslValidatorResponse [CHR 0x0A] [fragmentShader] ''ERROR: 0:7: a'' r =
     [\<lparr>severity = ''error'', excerpt = ''a'',
       location =
         \<lparr>file = Some ''/work/foo.fs.glsl'',
          position = ((Finite 6, Finite 0), (Finite 6, Finite 0))\<rparr>\<rparr>]"
proof -
  have s: "split ''ERROR: 0:7: a'' [CHR 0x0A] = [''ERROR: 0:7: a'']"
    by (simp add: split_def startsWith_def)
  show ?thesis
    using parse_single_line [OF s section_example(2) section_example(1), of r]
    by (simp add: section_result)
qed

lemma link_parse:
  assumes "name (shader_type sh) = ''fragment''"
  shows "parseGlslValidatorResponse [CHR 0x0A] [sh] linkLine r =
           [\<lparr>severity = ''error'', excerpt = ''too many varyings'',
             location = \<lparr>file = shader_fullFilename sh, position = r\<rparr>\<rparr>]"
proof -
  have s: "split linkLine [CHR 0x0A] = [linkLine]"
    by (simp add: linkLine_def split_def startsWith_def)
  have c: "compileRegex linkLine = None"
    by (simp add: linkLine_def regex_eval)
  show ?thesis
    using assms link_example s c
    by (simp add: parse_concat linesLoop_single linkResult_def ex_sev trim_example)
qed

lemma info_parse:
  assumes "canonicalShader sh"
  shows "parseGlslValidatorResponse [CHR 0x0A] [sh] infoLine r =
     [\<lparr>severity = ''info'', excerpt = ''foo'',
       location =
         \<lparr>file = shader_fullFilename sh,
          position = ((Finite 0, Finite 0), (Finite 0, Finite 0))\<rparr>\<rparr>]"
proof -
  have s: "split infoLine [CHR 0x0A] = [infoLine]"
    by (simp add: infoLine_def split_def startsWith_def)
  have c: "compileRegex infoLine = Some (''INFO'', ''1'', ''1'', ''foo'')"
    by (simp add: infoLine_def regex_eval)
  have h: "\<not> endsWith infoLine (shader_name sh)"
    using canonical_suffix [OF assms, of infoLine] by (auto simp: infoLine_def endsWith_def)
  have i: "getSeverity ''INFO'' = ''info''" by code_simp
  have r: "compileResult sh (''INFO'', ''1'', ''1'', ''foo'') =
     \<lparr>severity = ''info'', excerpt = ''foo'',
       location =
         \<lparr>file = shader_fullFilename sh,
          position = ((Finite 0, Finite 0), (Finite 0, Finite 0))\<rparr>\<rparr>"
    by (simp add: compileResult_def i ex_parseInt trim_def whiteSpace_def minusOne_def
        greaterZero_def roundInt_def toNumber_def roundToDouble_def)
  show ?thesis using parse_single_line [OF s h c, of r] by (simp add: r)
qed

lemma decimal_replicate_zero:
  "foldl (\<lambda>a c. 10 * a + (int (of_char c) - 48)) v (replicate n (CHR ''0'')) = v * 10 ^ n"
  by (induction n arbitrary: v) simp_all

lemma huge_value: "decimalValue hugeDigits = 2 * 10 ^ 308"
  by (simp add: decimalValue_def hugeDigits_def decimal_replicate_zero)

lemma huge_parse: "parseInt hugeDigits = PosInfinity"
  unfolding parseInt_def huge_value
  by (simp add: toNumber_def roundToDouble_def bitLength.simps Let_def)

lemma more_positions:
  "position (location (compileResult sh (''ERROR'', ''9007199254740994'', ''1'', ''a''))) =
     ((Finite 0, Finite 9007199254740992), (Finite 0, Finite 9007199254740992))"
  unfolding compileResult_position by (simp add: number_eval)

lemma huge_position:
  "position (location (compileResult sh (''ERROR'', ''1'', hugeDigits, ''a''))) =
     ((PosInfinity, Finite 0), (PosInfinity, Finite 0))"
  unfolding compileResult_position huge_parse
  by (simp add: number_eval)

section \<open>The claims\<close>

text \<open>
  By \<open>parse_concat\<close> the result of \<open>parseGlslValidatorResponse\<close> is, shader after
  shader in the order of \<open>inputs\<close>, what \<open>linesLoop (length inputs) shader\<close> pushes on
  the lines of the output. What the line at index \<open>i\<close> adds for a shader is the
  difference between the loop on the first \<open>Suc i\<close> lines and the loop on the first
  \<open>i\<close> lines. The statements about shaders suppose that the type of a shader is one of
  \<open>shaderTypes\<close>; the statements about single output lines suppose that the shader is
  canonical, so that its name ends with a dot and a four-letter code.
\<close>

text \<open>
  C1. One shader is submitted and the output is the one line
  \<open>ERROR: 3:5: undefined variable 'x'\<close>. Then the result is exactly one diagnostic:
  severity \<open>error\<close>, message \<open>undefined variable 'x'\<close>, the file of the shader, and the
  range \<open>[[4, 2], [4, 2]]\<close>: the first number of the line is the column, the second the
  row, both made zero-based. This holds for the line end LF and for CR LF.
\<close>

theorem parse_single_compile_line:
  assumes "canonicalShader sh"
  shows "parseGlslValidatorResponse [CHR 0x0A] [sh] exampleLine r =
           [\<lparr>severity = ''error'', excerpt = exampleMessage,
             location =
               \<lparr>file = shader_fullFilename sh,
                position = ((Finite 4, Finite 2), (Finite 4, Finite 2))\<rparr>\<rparr>]
         \<and> parseGlslValidatorResponse [CHR 0x0D, CHR 0x0A] [sh] exampleLine r =
           [\<lparr>severity = ''error'', excerpt = exampleMessage,
             location =
               \<lparr>file = shader_fullFilename sh,
                position = ((Finite 4, Finite 2), (Finite 4, Finite 2))\<rparr>\<rparr>]"
proof -
  have c: "compileRegex exampleLine = Some (''ERROR'', ''3'', ''5'', exampleMessage)"
    using ex_compile by (simp add: exampleMessage_def)
  have h: "\<not> endsWith exampleLine (shader_name sh)" using assms by (rule ex_header)
  show ?thesis
    using parse_single_line [OF ex_split(1) h c] parse_single_line [OF ex_split(2) h c]
    by (simp add: ex_result)
qed

theorem parse_single_compile_line_witness:
  "canonicalShader fragmentShader
   \<and> parseGlslValidatorResponse [CHR 0x0A] [fragmentShader] exampleLine exampleRange =
       [\<lparr>severity = ''error'', excerpt = exampleMessage,
         location =
           \<lparr>file = Some ''/work/foo.fs.glsl'',
            position = ((Finite 4, Finite 2), (Finite 4, Finite 2))\<rparr>\<rparr>]"
  using parse_single_compile_line [OF canonical_examples(1), of exampleRange] canonical_examples(1)
  by (simp add: fragmentShader_def)

text \<open>
  C6. Every diagnostic of the result comes from a line of the output whose severity
  word (group 1 of the compile pattern, or of the link pattern of a submitted shader)
  is matched without regard to case against \<open>error\<close>, \<open>warning\<close> and \<open>info\<close>: the
  severity of the diagnostic is the word of the three that it matches, in small letters,
  and \<open>warning\<close> when it matches none. So \<open>ERROR\<close>, \<open>Error\<close>, \<open>WARNING\<close> and \<open>INFO\<close>
  are recognised, and for one shader the line \<open>NOTICE: 1:1: foo\<close> gives one diagnostic
  of severity \<open>warning\<close>, the line \<open>INFO: 1:1: foo\<close> one of severity \<open>info\<close>.
\<close>

theorem severity_normalised:
  assumes "d \<in> set (parseGlslValidatorResponse eol inputs out r)"
    and "\<forall>s \<in> set inputs. shader_type s \<in> set shaderTypes"
  shows "(\<exists>l \<in> set (split out eol). \<exists>w.
            ((\<exists>g2 g3 g4. compileRegex l = Some (w, g2, g3, g4))
             \<or> (\<exists>s \<in> set inputs. \<exists>g2. linkRegex (name (shader_type s)) l = Some (w, g2)))
            \<and> severity d =
                (if caseInsensitiveMatch w ''error'' then ''error''
                 else if caseInsensitiveMatch w ''warning'' then ''warning''
                 else if caseInsensitiveMatch w ''info'' then ''info''
                 else ''warning''))
         \<and> getSeverity ''ERROR'' = ''error'' \<and> getSeverity ''Error'' = ''error''
         \<and> getSeverity ''WARNING'' = ''warning'' \<and> getSeverity ''INFO'' = ''info''
         \<and> getSeverity ''NOTICE'' = ''warning''
         \<and> (canonicalShader sh \<longrightarrow>
              parseGlslValidatorResponse [CHR 0x0A] [sh] noticeLine r' =
                [\<lparr>severity = ''warning'', excerpt = ''foo'',
                  location =
                    \<lparr>file = shader_fullFilename sh,
                     position = ((Finite 0, Finite 0), (Finite 0, Finite 0))\<rparr>\<rparr>]
              \<and> parseGlslValidatorResponse [CHR 0x0A] [sh] infoLine r' =
                [\<lparr>severity = ''info'', excerpt = ''foo'',
                  location =
                    \<lparr>file = shader_fullFilename sh,
                     position = ((Finite 0, Finite 0), (Finite 0, Finite 0))\<rparr>\<rparr>])"
proof -
  from parse_provenance [OF assms(1)] obtain s l where
    sl: "s \<in> set inputs" "l \<in> set (split out eol)"
    and "(\<exists>m. compileRegex l = Some m \<and> d = compileResult s m)
           \<or> (\<exists>m. linkRegex (name (shader_type s)) l = Some m \<and> d = linkResult s r m)"
    by blast
  then consider g1 g2 g3 g4 where "compileRegex l = Some (g1, g2, g3, g4)"
      "d = compileResult s (g1, g2, g3, g4)"
    | l1 l2 where "linkRegex (name (shader_type s)) l = Some (l1, l2)"
      "d = linkResult s r (l1, l2)"
    by auto
  then have "\<exists>l \<in> set (split out eol). \<exists>w.
            ((\<exists>g2 g3 g4. compileRegex l = Some (w, g2, g3, g4))
             \<or> (\<exists>s \<in> set inputs. \<exists>g2. linkRegex (name (shader_type s)) l = Some (w, g2)))
            \<and> severity d =
                (if caseInsensitiveMatch w ''error'' then ''error''
                 else if caseInsensitiveMatch w ''warning'' then ''warning''
                 else if caseInsensitiveMatch w ''info'' then ''info''
                 else ''warning'')"
  proof cases
    case 1
    then have "severity d = getSeverity g1" by (simp add: compileResult_def Let_def)
    then have "((\<exists>g2 g3 g4. compileRegex l = Some (g1, g2, g3, g4))
            \<or> (\<exists>s \<in> set inputs. \<exists>g2. linkRegex (name (shader_type s)) l = Some (g1, g2)))
           \<and> severity d =
                (if caseInsensitiveMatch g1 ''error'' then ''error''
                 else if caseInsensitiveMatch g1 ''warning'' then ''warning''
                 else if caseInsensitiveMatch g1 ''info'' then ''info''
                 else ''warning'')"
      using 1(1) getSeverity_match [of g1] by simp
    then show ?thesis using sl(2) by (intro bexI [of _ l] exI [of _ g1])
  next
    case 2
    then have "severity d = getSeverity l1" by (simp add: linkResult_def)
    moreover have "\<exists>s \<in> set inputs. \<exists>g2. linkRegex (name (shader_type s)) l = Some (l1, g2)"
      using 2(1) sl(1) by blast
    ultimately have "((\<exists>g2 g3 g4. compileRegex l = Some (l1, g2, g3, g4))
            \<or> (\<exists>s \<in> set inputs. \<exists>g2. linkRegex (name (shader_type s)) l = Some (l1, g2)))
           \<and> severity d =
                (if caseInsensitiveMatch l1 ''error'' then ''error''
                 else if caseInsensitiveMatch l1 ''warning'' then ''warning''
                 else if caseInsensitiveMatch l1 ''info'' then ''info''
                 else ''warning'')"
      using getSeverity_match [of l1] by simp
    then show ?thesis using sl(2) by (intro bexI [of _ l] exI [of _ l1])
  qed
  then show ?thesis
    using notice_parse [of sh r'] info_parse [of sh r'] sev_examples by simp
qed

theorem severity_normalised_witness:
  "\<lparr>severity = ''info'', excerpt = ''foo'',
     location =
       \<lparr>file = Some ''/work/foo.fs.glsl'',
        position = ((Finite 0, Finite 0), (Finite 0, Finite 0))\<rparr>\<rparr>
     \<in> set (parseGlslValidatorResponse [CHR 0x0A] [fragmentShader] infoLine exampleRange)
   \<and> shader_type fragmentShader \<in> set shaderTypes
   \<and> compileRegex infoLine = Some (''INFO'', ''1'', ''1'', ''foo'')
   \<and> caseInsensitiveMatch ''INFO'' ''info''
   \<and> \<not> caseInsensitiveMatch ''INFO'' ''error''
   \<and> \<not> caseInsensitiveMatch ''INFO'' ''warning''
   \<and> (\<exists>l \<in> set (split infoLine [CHR 0x0A]). \<exists>w.
         ((\<exists>g2 g3 g4. compileRegex l = Some (w, g2, g3, g4))
          \<or> (\<exists>s \<in> set [fragmentShader]. \<exists>g2. linkRegex (name (shader_type s)) l = Some (w, g2)))
         \<and> ''info'' =
                (if caseInsensitiveMatch w ''error'' then ''error''
                 else if caseInsensitiveMatch w ''warning'' then ''warning''
                 else if caseInsensitiveMatch w ''info'' then ''info''
                 else ''warning''))"
proof -
  let ?d = "\<lparr>severity = ''info'', excerpt = ''foo'',
     location =
       \<lparr>file = Some ''/work/foo.fs.glsl'',
        position = ((Finite 0, Finite 0), (Finite 0, Finite 0))\<rparr>\<rparr>"
  have h1: "?d \<in> set (parseGlslValidatorResponse [CHR 0x0A] [fragmentShader] infoLine exampleRange)"
    using info_parse [OF canonical_examples(1), of exampleRange] by (simp add: fragmentShader_def)
  have h2: "\<forall>s \<in> set [fragmentShader]. shader_type s \<in> set shaderTypes"
    using builtin_examples(1) by simp
  have c: "compileRegex infoLine = Some (''INFO'', ''1'', ''1'', ''foo'')"
    by (simp add: infoLine_def regex_eval)
  have m: "caseInsensitiveMatch ''INFO'' ''info''" "\<not> caseInsensitiveMatch ''INFO'' ''error''"
    "\<not> caseInsensitiveMatch ''INFO'' ''warning''"
    by (simp_all add: caseInsensitiveMatch_def capitalOf_def)
  from severity_normalised [OF h1 h2]
  have "\<exists>l \<in> set (split infoLine [CHR 0x0A]). \<exists>w.
         ((\<exists>g2 g3 g4. compileRegex l = Some (w, g2, g3, g4))
          \<or> (\<exists>s \<in> set [fragmentShader]. \<exists>g2. linkRegex (name (shader_type s)) l = Some (w, g2)))
         \<and> severity ?d =
                (if caseInsensitiveMatch w ''error'' then ''error''
                 else if caseInsensitiveMatch w ''warning'' then ''warning''
                 else if caseInsensitiveMatch w ''info'' then ''info''
                 else ''warning'')"
    by (rule conjunct1)
  then show ?thesis using h1 builtin_examples(1) c m by simp
qed

text \<open>
  C7 (as amended). A diagnostic of the result comes from a line that matches the
  compile pattern or from a line that matches the link pattern of a submitted shader.
  In the first case both ends of its range are one point, whose row and column are not
  negative: each is the number of the line less one, and 0 for the number 0. The
  numbers are doubles: the row and the column are exactly the reported number less one
  when that number is below \<open>2 ^ 53\<close>, and rounded above (the reported row
  9007199254740993 gives 9007199254740991, the reported column 9007199254740994 gives
  9007199254740992, a row of 309 digits gives Infinity). In the second case the range
  is the range the caller passed, with whatever numbers it has.
\<close>

theorem compile_positions_clamped:
  assumes "d \<in> set (parseGlslValidatorResponse eol inputs out r)"
    and "\<forall>s \<in> set inputs. shader_type s \<in> set shaderTypes"
  shows "(\<exists>l \<in> set (split out eol).
             (\<exists>g1 g2 g3 g4. compileRegex l = Some (g1, g2, g3, g4)
                \<and> snd (position (location d)) = fst (position (location d))
                \<and> nonNegative (fst (fst (position (location d))))
                \<and> nonNegative (snd (fst (position (location d))))
                \<and> (decimalValue g3 < 2 ^ 53 \<longrightarrow>
                     fst (fst (position (location d))) = Finite (max 0 (decimalValue g3 - 1)))
                \<and> (decimalValue g2 < 2 ^ 53 \<longrightarrow>
                     snd (fst (position (location d))) = Finite (max 0 (decimalValue g2 - 1))))
             \<or> (\<exists>s \<in> set inputs. linkRegex (name (shader_type s)) l \<noteq> None
                   \<and> position (location d) = r))
       \<and> position (location (compileResult sh (''ERROR'', ''0'', ''7'', ''a''))) =
           ((Finite 6, Finite 0), (Finite 6, Finite 0))
       \<and> position (location (compileResult sh (''ERROR'', ''3'', ''9007199254740993'', ''a''))) =
           ((Finite 9007199254740991, Finite 2), (Finite 9007199254740991, Finite 2))
       \<and> position (location (compileResult sh (''ERROR'', ''9007199254740994'', ''1'', ''a''))) =
           ((Finite 0, Finite 9007199254740992), (Finite 0, Finite 9007199254740992))
       \<and> position (location (compileResult sh (''ERROR'', ''1'', hugeDigits, ''a''))) =
           ((PosInfinity, Finite 0), (PosInfinity, Finite 0))"
proof -
  from parse_provenance [OF assms(1)] obtain s l where
    sl: "s \<in> set inputs" "l \<in> set (split out eol)"
    and "(\<exists>m. compileRegex l = Some m \<and> d = compileResult s m)
           \<or> (\<exists>m. linkRegex (name (shader_type s)) l = Some m \<and> d = linkResult s r m)"
    by blast
  then consider g1 g2 g3 g4 where "compileRegex l = Some (g1, g2, g3, g4)"
      "d = compileResult s (g1, g2, g3, g4)"
    | l1 l2 where "linkRegex (name (shader_type s)) l = Some (l1, l2)"
      "d = linkResult s r (l1, l2)"
    by auto
  then have "\<exists>l \<in> set (split out eol).
             (\<exists>g1 g2 g3 g4. compileRegex l = Some (g1, g2, g3, g4)
                \<and> snd (position (location d)) = fst (position (location d))
                \<and> nonNegative (fst (fst (position (location d))))
                \<and> nonNegative (snd (fst (position (location d))))
                \<and> (decimalValue g3 < 2 ^ 53 \<longrightarrow>
                     fst (fst (position (location d))) = Finite (max 0 (decimalValue g3 - 1)))
                \<and> (decimalValue g2 < 2 ^ 53 \<longrightarrow>
                     snd (fst (position (location d))) = Finite (max 0 (decimalValue g2 - 1))))
             \<or> (\<exists>s \<in> set inputs. linkRegex (name (shader_type s)) l \<noteq> None
                   \<and> position (location d) = r)"
  proof cases
    case 1
    note p = compileResult_position [of s g1 g2 g3 g4]
    have "compileRegex l = Some (g1, g2, g3, g4)
                \<and> snd (position (location d)) = fst (position (location d))
                \<and> nonNegative (fst (fst (position (location d))))
                \<and> nonNegative (snd (fst (position (location d))))
                \<and> (decimalValue g3 < 2 ^ 53 \<longrightarrow>
                     fst (fst (position (location d))) = Finite (max 0 (decimalValue g3 - 1)))
                \<and> (decimalValue g2 < 2 ^ 53 \<longrightarrow>
                     snd (fst (position (location d))) = Finite (max 0 (decimalValue g2 - 1)))"
      using 1 p clamp_nonneg [of "parseInt g3"] clamp_nonneg [of "parseInt g2"]
        clamp_exact [of g3] clamp_exact [of g2]
      by simp
    then have "\<exists>g1 g2 g3 g4. compileRegex l = Some (g1, g2, g3, g4)
                \<and> snd (position (location d)) = fst (position (location d))
                \<and> nonNegative (fst (fst (position (location d))))
                \<and> nonNegative (snd (fst (position (location d))))
                \<and> (decimalValue g3 < 2 ^ 53 \<longrightarrow>
                     fst (fst (position (location d))) = Finite (max 0 (decimalValue g3 - 1)))
                \<and> (decimalValue g2 < 2 ^ 53 \<longrightarrow>
                     snd (fst (position (location d))) = Finite (max 0 (decimalValue g2 - 1)))"
      by blast
    then show ?thesis using sl(2) by blast
  next
    case 2
    have p: "position (location d) = r" using 2(2) by (simp add: linkResult_def)
    have "\<exists>s \<in> set inputs. linkRegex (name (shader_type s)) l \<noteq> None
                   \<and> position (location d) = r"
      using 2(1) sl(1) p by auto
    then show ?thesis using sl(2) by blast
  qed
  then show ?thesis
    using position_examples [of sh] more_positions [of sh] huge_position [of sh] by simp
qed

theorem compile_positions_clamped_witness:
  "\<lparr>severity = ''error'', excerpt = ''a'',
     location =
       \<lparr>file = Some ''/work/foo.fs.glsl'',
        position = ((Finite 6, Finite 0), (Finite 6, Finite 0))\<rparr>\<rparr>
     \<in> set (parseGlslValidatorResponse [CHR 0x0A] [fragmentShader] ''ERROR: 0:7: a'' negativeRange)
   \<and> shader_type fragmentShader \<in> set shaderTypes
   \<and> compileRegex ''ERROR: 0:7: a'' = Some (''ERROR'', ''0'', ''7'', ''a'')
   \<and> decimalValue ''7'' = 7 \<and> decimalValue ''0'' = 0
   \<and> (\<exists>l \<in> set (split ''ERROR: 0:7: a'' [CHR 0x0A]).
             (\<exists>g1 g2 g3 g4. compileRegex l = Some (g1, g2, g3, g4)
                \<and> nonNegative (Finite 6) \<and> nonNegative (Finite 0)
                \<and> (decimalValue g3 < 2 ^ 53 \<longrightarrow> Finite 6 = Finite (max 0 (decimalValue g3 - 1)))
                \<and> (decimalValue g2 < 2 ^ 53 \<longrightarrow> Finite 0 = Finite (max 0 (decimalValue g2 - 1))))
             \<or> (\<exists>s \<in> set [fragmentShader]. linkRegex (name (shader_type s)) l \<noteq> None
                   \<and> ((Finite 6, Finite 0), (Finite 6, Finite 0)) = negativeRange))"
proof -
  let ?d = "\<lparr>severity = ''error'', excerpt = ''a'',
     location =
       \<lparr>file = Some ''/work/foo.fs.glsl'',
        position = ((Finite 6, Finite 0), (Finite 6, Finite 0))\<rparr>\<rparr>"
  have h1: "?d \<in> set (parseGlslValidatorResponse [CHR 0x0A] [fragmentShader] ''ERROR: 0:7: a''
      negativeRange)"
    using section_parse [of negativeRange] by simp
  have h2: "\<forall>s \<in> set [fragmentShader]. shader_type s \<in> set shaderTypes"
    using builtin_examples(1) by simp
  have v: "decimalValue ''7'' = 7" "decimalValue ''0'' = 0"
    by (simp_all add: decimalValue_def)
  from compile_positions_clamped [OF h1 h2]
  have "\<exists>l \<in> set (split ''ERROR: 0:7: a'' [CHR 0x0A]).
             (\<exists>g1 g2 g3 g4. compileRegex l = Some (g1, g2, g3, g4)
                \<and> snd (position (location ?d)) = fst (position (location ?d))
                \<and> nonNegative (fst (fst (position (location ?d))))
                \<and> nonNegative (snd (fst (position (location ?d))))
                \<and> (decimalValue g3 < 2 ^ 53 \<longrightarrow>
                     fst (fst (position (location ?d))) = Finite (max 0 (decimalValue g3 - 1)))
                \<and> (decimalValue g2 < 2 ^ 53 \<longrightarrow>
                     snd (fst (position (location ?d))) = Finite (max 0 (decimalValue g2 - 1))))
             \<or> (\<exists>s \<in> set [fragmentShader]. linkRegex (name (shader_type s)) l \<noteq> None
                   \<and> position (location ?d) = negativeRange)"
    by (rule conjunct1)
  then show ?thesis using h1 builtin_examples(1) section_example(1) v by simp
qed

text \<open>
  The claim as stated fails in two places. For every diagnostic: the range of a link
  diagnostic is the range of the caller as it is, so with a range of negative numbers
  the diagnostic of the line \<open>ERROR: Linking fragment stage: too many varyings\<close> has
  negative rows and columns. Decremented by one: the numbers are doubles, and the
  reported row 9007199254740993 gives the row 9007199254740991.
\<close>

theorem link_range_negative_counterexample:
  "parseGlslValidatorResponse [CHR 0x0A] [fragmentShader] linkLine negativeRange =
     [\<lparr>severity = ''error'', excerpt = ''too many varyings'',
       location =
         \<lparr>file = Some ''/work/foo.fs.glsl'',
          position = ((Finite (- 1), Finite (- 1)), (Finite (- 1), Finite (- 1)))\<rparr>\<rparr>]
   \<and> \<not> nonNegative (Finite (- 1))
   \<and> parseGlslValidatorResponse [CHR 0x0A] [fragmentShader] bigRowLine exampleRange =
     [\<lparr>severity = ''error'', excerpt = ''a'',
       location =
         \<lparr>file = Some ''/work/foo.fs.glsl'',
          position = ((Finite 9007199254740991, Finite 2),
                      (Finite 9007199254740991, Finite 2))\<rparr>\<rparr>]
   \<and> decimalValue ''9007199254740993'' - 1 = 9007199254740992"
proof -
  have f: "name (shader_type fragmentShader) = ''fragment''" by (simp add: fragmentShader_def)
  have 1: "parseGlslValidatorResponse [CHR 0x0A] [fragmentShader] linkLine negativeRange =
     [\<lparr>severity = ''error'', excerpt = ''too many varyings'',
       location =
         \<lparr>file = Some ''/work/foo.fs.glsl'',
          position = ((Finite (- 1), Finite (- 1)), (Finite (- 1), Finite (- 1)))\<rparr>\<rparr>]"
    using link_parse [OF f, of negativeRange]
    by (simp add: negativeRange_def fragmentShader_def)
  have s: "split bigRowLine [CHR 0x0A] = [bigRowLine]"
    by (simp add: bigRowLine_def split_def startsWith_def)
  have c: "compileRegex bigRowLine = Some (''ERROR'', ''3'', ''9007199254740993'', ''a'')"
    by (simp add: bigRowLine_def regex_eval)
  have h: "\<not> endsWith bigRowLine (shader_name fragmentShader)"
    by (simp add: bigRowLine_def endsWith_def fragmentShader_def)
  have p: "position (location (compileResult fragmentShader
              (''ERROR'', ''3'', ''9007199254740993'', ''a''))) =
           ((Finite 9007199254740991, Finite 2), (Finite 9007199254740991, Finite 2))"
    by (rule position_examples(2))
  have "compileResult fragmentShader (''ERROR'', ''3'', ''9007199254740993'', ''a'') =
     \<lparr>severity = ''error'', excerpt = ''a'',
       location =
         \<lparr>file = Some ''/work/foo.fs.glsl'',
          position = position (location (compileResult fragmentShader
              (''ERROR'', ''3'', ''9007199254740993'', ''a'')))\<rparr>\<rparr>"
    by (simp add: compileResult_def ex_sev trim_def whiteSpace_def fragmentShader_def Let_def)
  then have 2: "parseGlslValidatorResponse [CHR 0x0A] [fragmentShader] bigRowLine exampleRange =
     [\<lparr>severity = ''error'', excerpt = ''a'',
       location =
         \<lparr>file = Some ''/work/foo.fs.glsl'',
          position = ((Finite 9007199254740991, Finite 2),
                      (Finite 9007199254740991, Finite 2))\<rparr>\<rparr>]"
    using parse_single_line [OF s h c, of exampleRange] p by simp
  have 3: "decimalValue ''9007199254740993'' - 1 = 9007199254740992"
    by (simp add: decimalValue_def)
  show ?thesis using 1 2 3 by (simp add: nonNegative_def)
qed

text \<open>
  C8. The table of shader types has six entries. Their \<open>char2\<close> codes are pairwise
  distinct, their \<open>char4\<close> codes are pairwise distinct, the \<open>char1\<close> codes of the
  entries that have one are pairwise distinct, and exactly three entries have none.
\<close>

theorem shaderTypes_codes_distinct:
  "length shaderTypes = 6
   \<and> distinct (map char2 shaderTypes)
   \<and> distinct (map char4 shaderTypes)
   \<and> distinct (map char1 (filter (\<lambda>t. char1 t \<noteq> None) shaderTypes))
   \<and> length (filter (\<lambda>t. char1 t = None) shaderTypes) = 3"
  by (simp add: shaderTypes_def)

text \<open>
  C9. The parser has no failing branch: it is a total function to a list of
  diagnostics, and none of its steps can throw (the patterns are well formed for the
  names of \<open>shaderTypes\<close>, every group read is part of its pattern). For every output
  text it returns at most one diagnostic for each shader and line. The empty output
  gives the empty list. An output none of whose lines matches the compile pattern or the
  link pattern of a submitted shader gives the empty list. A line that matches neither
  pattern adds nothing to what the loop for a shader has pushed.
\<close>

theorem parse_ignores_unmatched_lines:
  assumes "\<forall>s \<in> set inputs. shader_type s \<in> set shaderTypes"
    and "shader_type sh \<in> set shaderTypes"
  shows "length (parseGlslValidatorResponse eol inputs out r)
           \<le> length inputs * length (split out eol)
     \<and> parseGlslValidatorResponse eol inputs [] r = []
     \<and> ((\<forall>l \<in> set (split out eol). compileRegex l = None
             \<and> (\<forall>s \<in> set inputs. linkRegex (name (shader_type s)) l = None))
          \<longrightarrow> parseGlslValidatorResponse eol inputs out r = [])
     \<and> (i < length ls \<and> compileRegex (ls ! i) = None
           \<and> linkRegex (name (shader_type sh)) (ls ! i) = None
          \<longrightarrow> linesLoop n sh r [] (take (Suc i) ls) = linesLoop n sh r [] (take i ls))"
proof -
  have 1: "parseGlslValidatorResponse eol inputs [] r = []"
    by (rule parse_unmatched) (simp add: split_Nil empty_line_unmatched)
  have 2: "linesLoop n sh r [] (take (Suc i) ls) = linesLoop n sh r [] (take i ls)"
    if "i < length ls" "compileRegex (ls ! i) = None"
       "linkRegex (name (shader_type sh)) (ls ! i) = None"
    using line_adds [OF that(1), of n sh r] that(2,3) by simp
  show ?thesis
    using 1 2 parse_unmatched [of out eol inputs r] parse_length [of eol inputs out r]
    by blast
qed

theorem parse_ignores_unmatched_lines_witness:
  "shader_type fragmentShader \<in> set shaderTypes
   \<and> shader_type vertexShader \<in> set shaderTypes
   \<and> length (parseGlslValidatorResponse [CHR 0x0A] [fragmentShader, vertexShader]
        ''Validation failed'' exampleRange)
       \<le> length [fragmentShader, vertexShader] * length (split ''Validation failed'' [CHR 0x0A])
   \<and> parseGlslValidatorResponse [CHR 0x0A] [fragmentShader, vertexShader] [] exampleRange = []
   \<and> compileRegex ''Validation failed'' = None
   \<and> linkRegex (name (shader_type fragmentShader)) ''Validation failed'' = None
   \<and> linkRegex (name (shader_type vertexShader)) ''Validation failed'' = None
   \<and> parseGlslValidatorResponse [CHR 0x0A] [fragmentShader, vertexShader]
        ''Validation failed'' exampleRange = []
   \<and> linesLoop 2 fragmentShader exampleRange [] (take (Suc 1) [''foo.frag'', ''Validation failed''])
       = linesLoop 2 fragmentShader exampleRange [] (take 1 [''foo.frag'', ''Validation failed''])"
proof -
  have h1: "\<forall>s \<in> set [fragmentShader, vertexShader]. shader_type s \<in> set shaderTypes"
    using builtin_examples by simp
  have u: "\<forall>l \<in> set (split ''Validation failed'' [CHR 0x0A]). compileRegex l = None
             \<and> (\<forall>s \<in> set [fragmentShader, vertexShader]. linkRegex (name (shader_type s)) l = None)"
    using junk_example by simp
  have i: "1 < length [''foo.frag'', ''Validation failed'']
      \<and> compileRegex ([''foo.frag'', ''Validation failed''] ! 1) = None
      \<and> linkRegex (name (shader_type fragmentShader)) ([''foo.frag'', ''Validation failed''] ! 1) = None"
    using junk_example by simp
  from parse_ignores_unmatched_lines [OF h1 builtin_examples(1),
      where eol = "[CHR 0x0A]" and r = exampleRange and out = "''Validation failed''"
        and i = 1 and ls = "[''foo.frag'', ''Validation failed'']" and n = 2]
  show ?thesis using u i builtin_examples junk_example by blast
qed

text \<open>
  C4 (as amended). The result of the parser is the concatenation, over the submitted
  shaders, of what the loop over the lines pushes. Let a line match the compile
  pattern. When the number of submitted shaders is not one, the line adds a diagnostic
  for a shader exactly when it does not
  itself end with the name of the shader, some earlier line ended with that name, and
  every line since then matched the compile pattern; otherwise it adds nothing, so the
  matches before the header of the shader are skipped. When one shader is submitted,
  the line adds its diagnostic, whatever the lines before it, exactly when it does not
  itself end with the name of the shader.
\<close>

theorem compile_section_gating:
  assumes "shader_type sh \<in> set shaderTypes"
    and "i < length ls" and "compileRegex (ls ! i) = Some m"
  shows "parseGlslValidatorResponse eol inputs out r =
           concat (map (\<lambda>s. linesLoop (length inputs) s r [] (split out eol)) inputs)
       \<and> (n \<noteq> 1 \<longrightarrow>
            linesLoop n sh r [] (take (Suc i) ls) =
              (if \<not> endsWith (ls ! i) (shader_name sh)
                  \<and> (\<exists>pre h mid. take i ls = pre @ h # mid \<and> endsWith h (shader_name sh)
                        \<and> (\<forall>l \<in> set mid. compileRegex l \<noteq> None))
               then linesLoop n sh r [] (take i ls) @ [compileResult sh m]
               else linesLoop n sh r [] (take i ls)))
       \<and> (n = 1 \<longrightarrow>
            linesLoop n sh r [] (take (Suc i) ls) =
              (if \<not> endsWith (ls ! i) (shader_name sh)
               then linesLoop n sh r [] (take i ls) @ [compileResult sh m]
               else linesLoop n sh r [] (take i ls)))"
proof -
  have "linkRegex (name (shader_type sh)) (ls ! i) = None"
    using assms(3) by (rule compile_excludes_link)
  then have "linesLoop n sh r [] (take (Suc i) ls) =
     linesLoop n sh r [] (take i ls) @
     (if \<not> endsWith (ls ! i) (shader_name sh) \<and> (sectionState n sh r (take i ls) \<or> n = 1)
      then [compileResult sh m] else [])"
    using line_adds [OF assms(2), of n sh r] assms(3) by simp
  then have e: "linesLoop n sh r [] (take (Suc i) ls) =
     (if \<not> endsWith (ls ! i) (shader_name sh) \<and> (sectionState n sh r (take i ls) \<or> n = 1)
      then linesLoop n sh r [] (take i ls) @ [compileResult sh m]
      else linesLoop n sh r [] (take i ls))"
    by simp
  show ?thesis
  proof (cases "n = 1")
    case True
    then show ?thesis using e parse_concat [of eol inputs out r] by simp
  next
    case False
    have "sectionState n sh r (take i ls) \<longleftrightarrow>
       (\<exists>pre h mid. take i ls = pre @ h # mid \<and> endsWith h (shader_name sh)
                        \<and> (\<forall>l \<in> set mid. compileRegex l \<noteq> None))"
      by (rule sectionState_header)
    then show ?thesis using e False parse_concat [of eol inputs out r] by presburger
  qed
qed

theorem compile_section_gating_witness:
  "shader_type fragmentShader \<in> set shaderTypes
   \<and> 1 < length sectionLines
   \<and> compileRegex (sectionLines ! 1) = Some (''ERROR'', ''0'', ''7'', ''a'')
   \<and> linesLoop 2 fragmentShader exampleRange [] (take (Suc 1) sectionLines) =
       linesLoop 2 fragmentShader exampleRange [] (take 1 sectionLines)
       @ [compileResult fragmentShader (''ERROR'', ''0'', ''7'', ''a'')]
   \<and> linesLoop 1 fragmentShader exampleRange [] (take (Suc 1) sectionLines) =
       linesLoop 1 fragmentShader exampleRange [] (take 1 sectionLines)
       @ [compileResult fragmentShader (''ERROR'', ''0'', ''7'', ''a'')]"
proof -
  have l: "1 < length sectionLines" by (simp add: sectionLines_def)
  have c: "compileRegex (sectionLines ! 1) = Some (''ERROR'', ''0'', ''7'', ''a'')"
    using section_example(1) by (simp add: sectionLines_def)
  have nh: "\<not> endsWith (sectionLines ! 1) (shader_name fragmentShader)"
    using section_example(2) by (simp add: sectionLines_def)
  have "take 1 sectionLines = [] @ ''foo.frag'' # []
      \<and> endsWith ''foo.frag'' (shader_name fragmentShader)
      \<and> (\<forall>l \<in> set []. compileRegex l \<noteq> None)"
    using section_example(3) by (simp add: sectionLines_def)
  then have g: "\<exists>pre h mid. take 1 sectionLines = pre @ h # mid
      \<and> endsWith h (shader_name fragmentShader) \<and> (\<forall>l \<in> set mid. compileRegex l \<noteq> None)"
    by blast
  have two: "(2::nat) \<noteq> 1" by simp
  from compile_section_gating [OF builtin_examples(1) l c, where n = 2 and r = exampleRange] two nh g
  have a: "linesLoop 2 fragmentShader exampleRange [] (take (Suc 1) sectionLines) =
       linesLoop 2 fragmentShader exampleRange [] (take 1 sectionLines)
       @ [compileResult fragmentShader (''ERROR'', ''0'', ''7'', ''a'')]"
    by presburger
  from compile_section_gating [OF builtin_examples(1) l c, where n = 1 and r = exampleRange] nh
  have b: "linesLoop 1 fragmentShader exampleRange [] (take (Suc 1) sectionLines) =
       linesLoop 1 fragmentShader exampleRange [] (take 1 sectionLines)
       @ [compileResult fragmentShader (''ERROR'', ''0'', ''7'', ''a'')]"
    by presburger
  show ?thesis using builtin_examples(1) l c a b by blast
qed

text \<open>
  The claim as stated fails on a batch of one shader: the single output line
  \<open>ERROR: 1:1: foo.frag\<close> matches the compile pattern, but it ends with the name of
  the shader, so it is taken as the header of the section and gives no diagnostic.
\<close>

theorem single_shader_header_line_counterexample:
  "canonicalShader fragmentShader
   \<and> compileRegex ''ERROR: 1:1: foo.frag'' = Some (''ERROR'', ''1'', ''1'', ''foo.frag'')
   \<and> parseGlslValidatorResponse [CHR 0x0A] [fragmentShader] ''ERROR: 1:1: foo.frag''
        exampleRange = []"
proof -
  have "linkRegex (name (shader_type fragmentShader)) ''ERROR: 1:1: foo.frag'' = None"
    using header_example(1) by (rule compile_excludes_link)
  then have "parseGlslValidatorResponse [CHR 0x0A] [fragmentShader] ''ERROR: 1:1: foo.frag''
        exampleRange = []"
    using header_example(2,3) by (simp add: parse_concat linesLoop_single)
  then show ?thesis using canonical_examples(1) header_example(1) by simp
qed

text \<open>
  C5 (as amended). Whatever the state of the compile section, a line that matches the
  link pattern of a shader adds exactly one diagnostic for that shader: its severity is
  the normalised group 1, its message is group 2 trimmed, its file is the file of the
  shader and its range is the range the caller passed. The link pattern is tried on
  every line, but a line never matches both patterns: a line that matches the link
  pattern does not match the compile pattern. For a shader of the fragment stage the
  output \<open>ERROR: Linking fragment stage: too many varyings\<close> gives one diagnostic with
  the message \<open>too many varyings\<close>.
\<close>

theorem link_diagnostic_every_line:
  assumes "shader_type sh \<in> set shaderTypes" and "i < length ls"
    and "linkRegex (name (shader_type sh)) (ls ! i) = Some (g1, g2)"
  shows "linesLoop n sh r [] (take (Suc i) ls) =
           linesLoop n sh r [] (take i ls) @
           [\<lparr>severity = getSeverity g1, excerpt = trim g2,
             location = \<lparr>file = shader_fullFilename sh, position = r\<rparr>\<rparr>]
         \<and> compileRegex (ls ! i) = None
         \<and> (name (shader_type sh) = ''fragment'' \<longrightarrow>
              parseGlslValidatorResponse [CHR 0x0A] [sh] linkLine r =
                [\<lparr>severity = ''error'', excerpt = ''too many varyings'',
                  location = \<lparr>file = shader_fullFilename sh, position = r\<rparr>\<rparr>])"
proof -
  have c: "compileRegex l = None" if "linkRegex tn l = Some lm" for l tn lm
  proof (cases "compileRegex l")
    case None
    then show ?thesis .
  next
    case (Some m)
    then show ?thesis using compile_excludes_link [OF Some, of tn] that by simp
  qed
  have 1: "linesLoop n sh r [] (take (Suc i) ls) =
           linesLoop n sh r [] (take i ls) @
           [\<lparr>severity = getSeverity g1, excerpt = trim g2,
             location = \<lparr>file = shader_fullFilename sh, position = r\<rparr>\<rparr>]"
    using line_adds [OF assms(2), of n sh r] assms(3) c [OF assms(3)]
    by (simp add: linkResult_def)
  have 2: "parseGlslValidatorResponse [CHR 0x0A] [sh] linkLine r =
                [\<lparr>severity = ''error'', excerpt = ''too many varyings'',
                  location = \<lparr>file = shader_fullFilename sh, position = r\<rparr>\<rparr>]"
    if f: "name (shader_type sh) = ''fragment''"
  proof -
    have "split linkLine [CHR 0x0A] = [linkLine]"
      by (simp add: linkLine_def split_def startsWith_def)
    then show ?thesis
      using f link_example c [OF link_example]
      by (simp add: parse_concat linesLoop_single linkResult_def ex_sev trim_example)
  qed
  show ?thesis using 1 2 c [OF assms(3)] by blast
qed

theorem link_diagnostic_every_line_witness:
  "shader_type fragmentShader \<in> set shaderTypes
   \<and> 0 < length [linkLine]
   \<and> linkRegex (name (shader_type fragmentShader)) ([linkLine] ! 0)
       = Some (''ERROR'', ''too many varyings'')
   \<and> linesLoop 2 fragmentShader exampleRange [] (take (Suc 0) [linkLine]) =
       linesLoop 2 fragmentShader exampleRange [] (take 0 [linkLine]) @
       [\<lparr>severity = getSeverity ''ERROR'', excerpt = trim ''too many varyings'',
         location = \<lparr>file = shader_fullFilename fragmentShader, position = exampleRange\<rparr>\<rparr>]
   \<and> compileRegex ([linkLine] ! 0) = None
   \<and> name (shader_type fragmentShader) = ''fragment''
   \<and> parseGlslValidatorResponse [CHR 0x0A] [fragmentShader] linkLine exampleRange =
       [\<lparr>severity = ''error'', excerpt = ''too many varyings'',
         location = \<lparr>file = shader_fullFilename fragmentShader, position = exampleRange\<rparr>\<rparr>]"
proof -
  have l: "0 < length [linkLine]" by simp
  have f: "name (shader_type fragmentShader) = ''fragment''" by (simp add: fragmentShader_def)
  have m: "linkRegex (name (shader_type fragmentShader)) ([linkLine] ! 0)
       = Some (''ERROR'', ''too many varyings'')"
    using link_example f by simp
  from link_diagnostic_every_line [OF builtin_examples(1) l m, where n = 2 and r = exampleRange]
  show ?thesis using builtin_examples(1) l m f by blast
qed

text \<open>
  The claim as stated says that one line may give both a compile match and a link
  match. No line does: after the severity word and \<open>: \<close> a compile line goes on with a
  digit and a link line with the letter L.
\<close>

theorem compile_and_link_exclusive_counterexample:
  "\<not> (\<exists>line t. t \<in> set shaderTypes \<and> compileRegex line \<noteq> None
          \<and> linkRegex (name t) line \<noteq> None)"
  using compile_excludes_link by fastforce

text \<open>
  C10. For any number of submitted shaders, one also, a line that ends with the name
  of a shader is not tried against the compile pattern for that shader: what it adds
  is at most the link diagnostic, and nothing at all when it matches the compile
  pattern. It opens the compile section: when the next line matches the compile
  pattern and does not end with the name, that line adds its compile diagnostic.
\<close>

theorem header_line_not_compiled:
  assumes "shader_type sh \<in> set shaderTypes" and "i < length ls"
    and "endsWith (ls ! i) (shader_name sh)"
  shows "linesLoop n sh r [] (take (Suc i) ls) =
           linesLoop n sh r [] (take i ls) @
           (case linkRegex (name (shader_type sh)) (ls ! i) of
              Some lm \<Rightarrow> [linkResult sh r lm] | None \<Rightarrow> [])
         \<and> (compileRegex (ls ! i) \<noteq> None \<longrightarrow>
              linesLoop n sh r [] (take (Suc i) ls) = linesLoop n sh r [] (take i ls))
         \<and> (Suc i < length ls \<and> \<not> endsWith (ls ! Suc i) (shader_name sh)
              \<and> compileRegex (ls ! Suc i) = Some m \<longrightarrow>
              linesLoop n sh r [] (take (Suc (Suc i)) ls) =
                linesLoop n sh r [] (take (Suc i) ls) @ [compileResult sh m])"
proof -
  have 1: "linesLoop n sh r [] (take (Suc i) ls) =
           linesLoop n sh r [] (take i ls) @
           (case linkRegex (name (shader_type sh)) (ls ! i) of
              Some lm \<Rightarrow> [linkResult sh r lm] | None \<Rightarrow> [])"
    using line_adds [OF assms(2), of n sh r] assms(3) by simp
  have 2: "compileRegex (ls ! i) \<noteq> None \<longrightarrow>
              linesLoop n sh r [] (take (Suc i) ls) = linesLoop n sh r [] (take i ls)"
    using 1 compile_excludes_link [of "ls ! i"] by auto
  have 3: "linesLoop n sh r [] (take (Suc (Suc i)) ls) =
                linesLoop n sh r [] (take (Suc i) ls) @ [compileResult sh m]"
    if a: "Suc i < length ls" "\<not> endsWith (ls ! Suc i) (shader_name sh)"
      "compileRegex (ls ! Suc i) = Some m"
  proof -
    have "take (Suc i) ls = take i ls @ [ls ! i]"
      using assms(2) by (simp add: take_Suc_conv_app_nth)
    then have "sectionState n sh r (take (Suc i) ls)"
      using assms(3) by (simp add: sectionState_snoc)
    moreover have "linkRegex (name (shader_type sh)) (ls ! Suc i) = None"
      using a(3) by (rule compile_excludes_link)
    ultimately show ?thesis
      using line_adds [OF a(1), of n sh r] a(2,3) by simp
  qed
  show ?thesis using 1 2 3 by blast
qed

theorem header_line_not_compiled_witness:
  "shader_type fragmentShader \<in> set shaderTypes
   \<and> 0 < length headerLines
   \<and> endsWith (headerLines ! 0) (shader_name fragmentShader)
   \<and> compileRegex (headerLines ! 0) \<noteq> None
   \<and> linesLoop 1 fragmentShader exampleRange [] (take (Suc 0) headerLines) =
       linesLoop 1 fragmentShader exampleRange [] (take 0 headerLines)
   \<and> Suc 0 < length headerLines
   \<and> \<not> endsWith (headerLines ! Suc 0) (shader_name fragmentShader)
   \<and> compileRegex (headerLines ! Suc 0) = Some (''ERROR'', ''0'', ''7'', ''a'')
   \<and> linesLoop 1 fragmentShader exampleRange [] (take (Suc (Suc 0)) headerLines) =
       linesLoop 1 fragmentShader exampleRange [] (take (Suc 0) headerLines)
       @ [compileResult fragmentShader (''ERROR'', ''0'', ''7'', ''a'')]"
proof -
  have l: "0 < length headerLines" "Suc 0 < length headerLines"
    by (simp_all add: headerLines_def)
  have h: "endsWith (headerLines ! 0) (shader_name fragmentShader)"
    using header_example(2) by (simp add: headerLines_def)
  have c: "compileRegex (headerLines ! 0) \<noteq> None"
    using header_example(1) by (simp add: headerLines_def)
  have n: "\<not> endsWith (headerLines ! Suc 0) (shader_name fragmentShader)"
    "compileRegex (headerLines ! Suc 0) = Some (''ERROR'', ''0'', ''7'', ''a'')"
    using section_example(1,2) by (simp_all add: headerLines_def)
  from header_line_not_compiled [OF builtin_examples(1) l(1) h,
      where n = 1 and r = exampleRange and m = "(''ERROR'', ''0'', ''7'', ''a'')"]
  show ?thesis using builtin_examples(1) l h c n by blast
qed

text \<open>
  C2 (as amended). Classification fails with the error \<open>Unknown shader type\<close> exactly
  when the base name of the file matches none of the five conventions as the patterns
  have them: in the two \<open>.glsl\<close> conventions the character before the code is a dot or
  an underscore, and the text before the code holds no line terminator. It never fails
  in another way. A base name without line terminators that matches one of the five
  conventions as the specification lists them is classified, and \<open>readme.txt\<close> is not.
\<close>

theorem classify_fails_iff:
  "(extractShaderFilenameTokens f = Inl UnknownShaderType
      \<longleftrightarrow> \<not> codeConventions (path_basename f))
   \<and> extractShaderFilenameTokens f \<noteq> Inl TypeErrorUndefined
   \<and> (specConventions (path_basename f) \<and> (\<forall>x \<in> set (path_basename f). \<not> lineTerminator x)
        \<longrightarrow> (\<exists>tok. extractShaderFilenameTokens f = Inr tok))
   \<and> extractShaderFilenameTokens ''readme.txt'' = Inl UnknownShaderType"
proof -
  have "\<exists>tok. extractShaderFilenameTokens f = Inr tok"
    if "specConventions (path_basename f)" "\<forall>x \<in> set (path_basename f). \<not> lineTerminator x"
  proof -
    have "codeConventions (path_basename f)" using that by (rule spec_in_code)
    then show ?thesis using extract_success [of f] by blast
  qed
  then show ?thesis
    using extract_Unknown [of f] extract_not_TypeError [of f] ex_classify(3) by blast
qed

theorem classify_fails_iff_witness:
  "extractShaderFilenameTokens ''/work/notes/readme.md'' = Inl UnknownShaderType
   \<and> \<not> codeConventions (path_basename ''/work/notes/readme.md'')
   \<and> specConventions (path_basename ''/work/sky.tesc'')
   \<and> list_all (\<lambda>x. \<not> lineTerminator x) (path_basename ''/work/sky.tesc'')
   \<and> (\<exists>tok. extractShaderFilenameTokens ''/work/sky.tesc'' = Inr tok)"
proof -
  have b: "path_basename ''/work/notes/readme.md'' = ''readme.md''"
    "path_basename ''/work/sky.tesc'' = ''sky.tesc''"
    by (simp_all add: path_basename_def)
  have n: "\<not> codeConventions (path_basename ''/work/notes/readme.md'')"
    unfolding b by (simp add: codeConventions_def matchesConvention_def endsWith_def)
  have s: "specConventions (path_basename ''/work/sky.tesc'')"
    unfolding b by (simp add: specConventions_def endsWith_def)
  have t: "\<forall>x \<in> set (path_basename ''/work/sky.tesc''). \<not> lineTerminator x"
    unfolding b by (simp add: lineTerminator_def)
  from classify_fails_iff [of "''/work/notes/readme.md''"] n
  have 1: "extractShaderFilenameTokens ''/work/notes/readme.md'' = Inl UnknownShaderType"
    by blast
  from classify_fails_iff [of "''/work/sky.tesc''"] s t
  have 2: "\<exists>tok. extractShaderFilenameTokens ''/work/sky.tesc'' = Inr tok"
    by blast
  show ?thesis using 1 2 n s t by (simp add: list_all_iff)
qed

text \<open>
  The claim as stated fails in both directions. The file \<open>foo_v.glsl\<close> matches none of
  the five conventions of the specification, which all have a dot before the code, and
  it is classified as a vertex shader. The name made of \<open>a\<close>, a line feed and
  \<open>b.vert\<close> matches the fifth convention and is not classified.
\<close>

theorem classify_underscore_counterexample:
  "\<not> specConventions (path_basename ''foo_v.glsl'')
   \<and> extractShaderFilenameTokens ''foo_v.glsl'' =
       Inr \<lparr>baseFilename = ''foo_'',
            baseShaderType =
              \<lparr>char1 = Some ''v'', char2 = ''vs'', char4 = ''vert'', name = ''vertex''\<rparr>,
            dirName = ''.'', outFilename = ''foo_.vert'', fullFilename = ''foo_v.glsl''\<rparr>
   \<and> specConventions (path_basename ([CHR ''a'', CHR 0x0A] @ ''b.vert''))
   \<and> extractShaderFilenameTokens ([CHR ''a'', CHR 0x0A] @ ''b.vert'') = Inl UnknownShaderType"
proof -
  have 1: "\<not> specConventions (path_basename ''foo_v.glsl'')"
    by (simp add: path_basename_def specConventions_def endsWith_def)
  have 2: "specConventions (path_basename ([CHR ''a'', CHR 0x0A] @ ''b.vert''))"
    by (simp add: path_basename_def specConventions_def endsWith_def)
  have 3: "extractShaderFilenameTokens ([CHR ''a'', CHR 0x0A] @ ''b.vert'') = Inl UnknownShaderType"
    by (simp add: extract_matchFileName matchFileName_def fileRegex_defs extRegex_def
          extMatch_def lineTerminator_def path_basename_def)
  show ?thesis using 1 2 3 ex_classify(4) by simp
qed

text \<open>
  C3 (as amended). When the base name of the file matches one of the five conventions
  as the patterns have them (so also when it has no line terminator and matches one of
  the five conventions as the specification lists them), the classification succeeds:
  the base name is the \<open>baseFilename\<close> (which ends with the separator), then the code,
  then the tail of the convention; the shader type is the entry of \<open>shaderTypes\<close> whose
  \<open>char1\<close>, \<open>char2\<close> or \<open>char4\<close> (as the convention asks) is the code; and the
  \<open>outFilename\<close> is the \<open>baseFilename\<close>, with a dot added when it does not end with
  one, followed by the \<open>char4\<close> of the type. \<open>foo.fs.glsl\<close> gives the fragment type
  and \<open>foo.frag\<close>, \<open>foo.vsh\<close> gives the vertex type and \<open>foo.vert\<close>.
\<close>

theorem classify_stage_and_name:
  assumes "codeConventions (path_basename f)
           \<or> specConventions (path_basename f)
              \<and> (\<forall>x \<in> set (path_basename f). \<not> lineTerminator x)"
  shows "(\<exists>tok code tail.
           extractShaderFilenameTokens f = Inr tok
           \<and> path_basename f = baseFilename tok @ code @ tail
           \<and> baseFilename tok \<noteq> []
           \<and> (last (baseFilename tok) = CHR ''.'' \<or> last (baseFilename tok) = CHR ''_'')
           \<and> baseShaderType tok \<in> set shaderTypes
           \<and> (tail = ''.glsl'' \<and> length code = 1 \<and> char1 (baseShaderType tok) = Some code
              \<or> tail = ''.glsl'' \<and> length code = 2 \<and> char2 (baseShaderType tok) = code
              \<or> tail = ''sh'' \<and> length code = 1 \<and> char1 (baseShaderType tok) = Some code
              \<or> tail = '''' \<and> length code = 2 \<and> char2 (baseShaderType tok) = code
              \<or> tail = '''' \<and> length code = 4 \<and> char4 (baseShaderType tok) = code)
           \<and> outFilename tok =
                (if last (baseFilename tok) = CHR ''.'' then baseFilename tok
                 else baseFilename tok @ ''.'') @ char4 (baseShaderType tok)
           \<and> fullFilename tok = f)
       \<and> extractShaderFilenameTokens ''foo.fs.glsl'' =
           Inr \<lparr>baseFilename = ''foo.'',
                baseShaderType =
                  \<lparr>char1 = Some ''f'', char2 = ''fs'', char4 = ''frag'', name = ''fragment''\<rparr>,
                dirName = ''.'', outFilename = ''foo.frag'', fullFilename = ''foo.fs.glsl''\<rparr>
       \<and> extractShaderFilenameTokens ''foo.vsh'' =
           Inr \<lparr>baseFilename = ''foo.'',
                baseShaderType =
                  \<lparr>char1 = Some ''v'', char2 = ''vs'', char4 = ''vert'', name = ''vertex''\<rparr>,
                dirName = ''.'', outFilename = ''foo.vert'', fullFilename = ''foo.vsh''\<rparr>"
proof -
  have "codeConventions (path_basename f)"
    using assms spec_in_code [of "path_basename f"] by blast
  then show ?thesis using extract_success [of f] ex_classify(1,2) by blast
qed

theorem classify_stage_and_name_witness:
  "codeConventions (path_basename ''/work/shaders/sky.tese'')
   \<and> specConventions (path_basename ''/work/shaders/sky.tese'')
   \<and> list_all (\<lambda>x. \<not> lineTerminator x) (path_basename ''/work/shaders/sky.tese'')
   \<and> extractShaderFilenameTokens ''/work/shaders/sky.tese'' =
       Inr \<lparr>baseFilename = ''sky.'',
            baseShaderType =
              \<lparr>char1 = None, char2 = ''te'', char4 = ''tese'',
               name = ''tessellation evaluation''\<rparr>,
            dirName = ''/work/shaders'', outFilename = ''sky.tese'',
            fullFilename = ''/work/shaders/sky.tese''\<rparr>
   \<and> extractShaderFilenameTokens ''foo.fs.glsl'' =
       Inr \<lparr>baseFilename = ''foo.'',
            baseShaderType =
              \<lparr>char1 = Some ''f'', char2 = ''fs'', char4 = ''frag'', name = ''fragment''\<rparr>,
            dirName = ''.'', outFilename = ''foo.frag'', fullFilename = ''foo.fs.glsl''\<rparr>"
proof -
  have b: "path_basename ''/work/shaders/sky.tese'' = ''sky.tese''"
    by (simp add: path_basename_def)
  have c: "codeConventions (path_basename ''/work/shaders/sky.tese'')"
    unfolding b by (simp add: codeConventions_def matchesConvention_def endsWith_def
        lineTerminator_def)
  have s: "specConventions (path_basename ''/work/shaders/sky.tese'')"
    unfolding b by (simp add: specConventions_def endsWith_def)
  have t: "list_all (\<lambda>x. \<not> lineTerminator x) (path_basename ''/work/shaders/sky.tese'')"
    unfolding b by (simp add: lineTerminator_def)
  have h: "codeConventions (path_basename ''/work/shaders/sky.tese'')
           \<or> specConventions (path_basename ''/work/shaders/sky.tese'')
              \<and> (\<forall>x \<in> set (path_basename ''/work/shaders/sky.tese''). \<not> lineTerminator x)"
    using c by (rule disjI1)
  have e: "extractShaderFilenameTokens ''/work/shaders/sky.tese'' =
       Inr \<lparr>baseFilename = ''sky.'',
            baseShaderType =
              \<lparr>char1 = None, char2 = ''te'', char4 = ''tese'',
               name = ''tessellation evaluation''\<rparr>,
            dirName = ''/work/shaders'', outFilename = ''sky.tese'',
            fullFilename = ''/work/shaders/sky.tese''\<rparr>"
    by (simp add: extract_matchFileName matchFileName_def fileRegex_defs extRegex_def
          extMatch_def lineTerminator_def path_basename_def path_dirname_def
          shaderByChar1_def shaderByChar2_def shaderByChar4_def shaderTypeLookup_def
          shaderTypes_def endsWith_def)
  from classify_stage_and_name [OF h]
  show ?thesis using c s t e by blast
qed

text \<open>
  The claim as stated, for every name that matches one of the five listed
  conventions, fails on a name with a line terminator before the code: the name made of
  \<open>my\<close>, a line feed and \<open>shader.frag\<close> matches the fifth convention, and the
  classification throws \<open>Unknown shader type\<close>, since the dot of a pattern matches no
  line terminator.
\<close>

theorem classify_line_terminator_counterexample:
  "specConventions (path_basename (''my'' @ [CHR 0x0A] @ ''shader.frag''))
   \<and> extractShaderFilenameTokens (''my'' @ [CHR 0x0A] @ ''shader.frag'')
       = Inl UnknownShaderType"
proof -
  have 1: "specConventions (path_basename (''my'' @ [CHR 0x0A] @ ''shader.frag''))"
    by (simp add: path_basename_def specConventions_def endsWith_def)
  have 2: "extractShaderFilenameTokens (''my'' @ [CHR 0x0A] @ ''shader.frag'')
       = Inl UnknownShaderType"
    by (simp add: extract_matchFileName matchFileName_def fileRegex_defs extRegex_def
          extMatch_def lineTerminator_def path_basename_def)
  show ?thesis using 1 2 by simp
qed

end
